theory Spec2Isabelle
  imports Main "HOL-Library.Word"
begin

unbundle bit_operations_syntax

section \<open>Data model of \<^verbatim>\<open>core/jni/android_os_seccomp.cpp\<close>\<close>

type_synonym u8 = "8 word"
type_synonym u16 = "16 word"
type_synonym u32 = "32 word"
type_synonym u64 = "64 word"

text \<open>\<^verbatim>\<open>size_t\<close> of the LP64 (aarch64) build. The 32-bit build has a 32-bit
  \<^verbatim>\<open>size_t\<close>; the only place where the width shows is the unsigned subtraction in
  \<^verbatim>\<open>SetValidateArchitectureJumpTarget\<close>.\<close>
type_synonym size_t = "64 word"

text \<open>\<^verbatim>\<open>struct sock_filter\<close> of \<^verbatim>\<open>linux/filter.h\<close>: one classic BPF instruction.\<close>
record sock_filter =
  code :: u16
  jt :: u8
  jf :: u8
  k :: u32

text \<open>\<^verbatim>\<open>typedef std::vector<sock_filter> filter\<close>.\<close>
type_synonym filter = "sock_filter list"

text \<open>\<^verbatim>\<open>struct sock_fprog\<close>: the length field is an \<^verbatim>\<open>unsigned short\<close>; the pointer to
  the first instruction is modelled by the array it points to.\<close>
record sock_fprog =
  len :: u16
  insns :: filter

text \<open>\<^verbatim>\<open>struct seccomp_data\<close> of \<^verbatim>\<open>linux/seccomp.h\<close>: what the kernel hands to the filter
  program for one system call.\<close>
record seccomp_data =
  nr :: u32
  arch :: u32
  instruction_pointer :: u64
  args :: "nat \<Rightarrow> u64"

subsection \<open>Constants of the kernel headers\<close>

text \<open>The headers \<^verbatim>\<open>linux/filter.h\<close>, \<^verbatim>\<open>linux/bpf_common.h\<close>, \<^verbatim>\<open>linux/seccomp.h\<close> and
  \<^verbatim>\<open>linux/audit.h\<close> are not part of the repository; the constants carry the values of
  the Linux user-space API.\<close>

named_theorems bpf_defs \<open>values of the header constants and instruction macros\<close>

definition BPF_LD :: u16 where [bpf_defs]: "BPF_LD = 0x00"
definition BPF_LDX :: u16 where [bpf_defs]: "BPF_LDX = 0x01"
definition BPF_ST :: u16 where [bpf_defs]: "BPF_ST = 0x02"
definition BPF_STX :: u16 where [bpf_defs]: "BPF_STX = 0x03"
definition BPF_ALU :: u16 where [bpf_defs]: "BPF_ALU = 0x04"
definition BPF_JMP :: u16 where [bpf_defs]: "BPF_JMP = 0x05"
definition BPF_RET :: u16 where [bpf_defs]: "BPF_RET = 0x06"
definition BPF_MISC :: u16 where [bpf_defs]: "BPF_MISC = 0x07"

definition BPF_W :: u16 where [bpf_defs]: "BPF_W = 0x00"
definition BPF_IMM :: u16 where [bpf_defs]: "BPF_IMM = 0x00"
definition BPF_ABS :: u16 where [bpf_defs]: "BPF_ABS = 0x20"
definition BPF_MEM :: u16 where [bpf_defs]: "BPF_MEM = 0x60"
definition BPF_LEN :: u16 where [bpf_defs]: "BPF_LEN = 0x80"

definition BPF_ADD :: u16 where [bpf_defs]: "BPF_ADD = 0x00"
definition BPF_SUB :: u16 where [bpf_defs]: "BPF_SUB = 0x10"
definition BPF_MUL :: u16 where [bpf_defs]: "BPF_MUL = 0x20"
definition BPF_DIV :: u16 where [bpf_defs]: "BPF_DIV = 0x30"
definition BPF_OR :: u16 where [bpf_defs]: "BPF_OR = 0x40"
definition BPF_AND :: u16 where [bpf_defs]: "BPF_AND = 0x50"
definition BPF_LSH :: u16 where [bpf_defs]: "BPF_LSH = 0x60"
definition BPF_RSH :: u16 where [bpf_defs]: "BPF_RSH = 0x70"
definition BPF_NEG :: u16 where [bpf_defs]: "BPF_NEG = 0x80"
definition BPF_XOR :: u16 where [bpf_defs]: "BPF_XOR = 0xa0"

definition BPF_JA :: u16 where [bpf_defs]: "BPF_JA = 0x00"
definition BPF_JEQ :: u16 where [bpf_defs]: "BPF_JEQ = 0x10"
definition BPF_JGT :: u16 where [bpf_defs]: "BPF_JGT = 0x20"
definition BPF_JGE :: u16 where [bpf_defs]: "BPF_JGE = 0x30"
definition BPF_JSET :: u16 where [bpf_defs]: "BPF_JSET = 0x40"

definition BPF_K :: u16 where [bpf_defs]: "BPF_K = 0x00"
definition BPF_X :: u16 where [bpf_defs]: "BPF_X = 0x08"
definition BPF_A :: u16 where [bpf_defs]: "BPF_A = 0x10"
definition BPF_TAX :: u16 where [bpf_defs]: "BPF_TAX = 0x00"
definition BPF_TXA :: u16 where [bpf_defs]: "BPF_TXA = 0x80"

definition SECCOMP_RET_KILL :: u32 where [bpf_defs]: "SECCOMP_RET_KILL = 0x00000000"
definition SECCOMP_RET_TRAP :: u32 where [bpf_defs]: "SECCOMP_RET_TRAP = 0x00030000"
definition SECCOMP_RET_ERRNO :: u32 where [bpf_defs]: "SECCOMP_RET_ERRNO = 0x00050000"
definition SECCOMP_RET_TRACE :: u32 where [bpf_defs]: "SECCOMP_RET_TRACE = 0x7ff00000"
definition SECCOMP_RET_ALLOW :: u32 where [bpf_defs]: "SECCOMP_RET_ALLOW = 0x7fff0000"

text \<open>\<^verbatim>\<open>EM_AARCH64 | __AUDIT_ARCH_64BIT | __AUDIT_ARCH_LE\<close> and \<^verbatim>\<open>EM_ARM | __AUDIT_ARCH_LE\<close>.\<close>
definition AUDIT_ARCH_AARCH64 :: u32 where [bpf_defs]: "AUDIT_ARCH_AARCH64 = 0xC00000B7"
definition AUDIT_ARCH_ARM :: u32 where [bpf_defs]: "AUDIT_ARCH_ARM = 0x40000028"

text \<open>\<^verbatim>\<open>#define syscall_nr (offsetof(struct seccomp_data, nr))\<close> and
  \<^verbatim>\<open>#define arch_nr (offsetof(struct seccomp_data, arch))\<close>.\<close>
definition syscall_nr :: u32 where [bpf_defs]: "syscall_nr = 0"
definition arch_nr :: u32 where [bpf_defs]: "arch_nr = 4"

text \<open>The instruction initialisers \<^verbatim>\<open>BPF_STMT(code, k)\<close> and \<^verbatim>\<open>BPF_JUMP(code, k, jt, jf)\<close>.\<close>
definition BPF_STMT :: "u16 \<Rightarrow> u32 \<Rightarrow> sock_filter" where
  [bpf_defs]: "BPF_STMT c kk = \<lparr>code = c, jt = 0, jf = 0, k = kk\<rparr>"

definition BPF_JUMP :: "u16 \<Rightarrow> u32 \<Rightarrow> u8 \<Rightarrow> u8 \<Rightarrow> sock_filter" where
  [bpf_defs]: "BPF_JUMP c kk t f = \<lparr>code = c, jt = t, jf = f, k = kk\<rparr>"

section \<open>The filter builders\<close>

text \<open>\<^verbatim>\<open>f.push_back(x)\<close>; every builder takes the vector and returns the updated one.\<close>
definition push_back :: "filter \<Rightarrow> sock_filter \<Rightarrow> filter" where
  "push_back f x = f @ [x]"

definition Kill :: "filter \<Rightarrow> filter" where
  "Kill f = push_back f (BPF_STMT (BPF_RET OR BPF_K) SECCOMP_RET_KILL)"

definition Trap :: "filter \<Rightarrow> filter" where
  "Trap f = push_back f (BPF_STMT (BPF_RET OR BPF_K) SECCOMP_RET_TRAP)"

definition Error :: "filter \<Rightarrow> u16 \<Rightarrow> filter" where
  "Error f retcode = push_back f (BPF_STMT (BPF_RET OR BPF_K) (SECCOMP_RET_ERRNO + ucast retcode))"

definition Trace :: "filter \<Rightarrow> filter" where
  "Trace f = push_back f (BPF_STMT (BPF_RET OR BPF_K) SECCOMP_RET_TRACE)"

definition Allow :: "filter \<Rightarrow> filter" where
  "Allow f = push_back f (BPF_STMT (BPF_RET OR BPF_K) SECCOMP_RET_ALLOW)"

definition AllowSyscall :: "filter \<Rightarrow> u32 \<Rightarrow> filter" where
  "AllowSyscall f num = Allow (push_back f (BPF_JUMP (BPF_JMP OR BPF_JEQ OR BPF_K) num 0 1))"

definition ExamineSyscall :: "filter \<Rightarrow> filter" where
  "ExamineSyscall f = push_back f (BPF_STMT (BPF_LD OR BPF_W OR BPF_ABS) syscall_nr)"

text \<open>\<^verbatim>\<open>SetValidateArchitectureJumpTarget(offset, f)\<close> returns the \<^verbatim>\<open>int\<close> result and the
  vector. \<^verbatim>\<open>jump_length\<close> is computed in \<^verbatim>\<open>size_t\<close> (it wraps), \<^verbatim>\<open>(__u8) jump_length\<close>
  truncates, and the comparison widens the byte again. \<open>None\<close> stands for the
  undefined behaviour of the store \<^verbatim>\<open>f[offset] = ...\<close> at an index outside the vector.\<close>
definition SetValidateArchitectureJumpTarget :: "size_t \<Rightarrow> filter \<Rightarrow> (int \<times> filter) option" where
  "SetValidateArchitectureJumpTarget offset f =
     (let jump_length = (of_nat (length f) :: size_t) - offset - 1;
          u8_jump_length = (ucast jump_length :: u8)
      in if (ucast u8_jump_length :: size_t) \<noteq> jump_length then Some (- 1, f)
         else if unat offset < length f
           then Some (0, f[unat offset :=
                  BPF_JUMP (BPF_JMP OR BPF_JEQ OR BPF_K) AUDIT_ARCH_ARM u8_jump_length 0])
           else None)"

text \<open>\<^verbatim>\<open>ValidateArchitectureAndJumpIfNeeded(f)\<close> returns \<^verbatim>\<open>f.size() - 2\<close> and the vector.\<close>
definition ValidateArchitectureAndJumpIfNeeded :: "filter \<Rightarrow> size_t \<times> filter" where
  "ValidateArchitectureAndJumpIfNeeded f0 =
     (let f = push_back f0 (BPF_STMT (BPF_LD OR BPF_W OR BPF_ABS) arch_nr);
          f = push_back f (BPF_JUMP (BPF_JMP OR BPF_JEQ OR BPF_K) AUDIT_ARCH_AARCH64 2 0);
          f = push_back f (BPF_JUMP (BPF_JMP OR BPF_JEQ OR BPF_K) AUDIT_ARCH_ARM 1 0);
          f = Trap f
      in ((of_nat (length f) :: size_t) - 2, f))"

text \<open>\<^verbatim>\<open>install_filter(f)\<close>. The kernel is a parameter: \<open>prctl prog\<close> is the value that
  \<^verbatim>\<open>prctl(PR_SET_SECCOMP, SECCOMP_MODE_FILTER, &prog)\<close> returns. The result is the
  \<^verbatim>\<open>bool\<close> and the list of programs handed to the kernel, in order.\<close>
definition install_filter :: "(sock_fprog \<Rightarrow> int) \<Rightarrow> filter \<Rightarrow> bool \<times> sock_fprog list" where
  "install_filter prctl f =
     (let prog = \<lparr>len = (of_nat (length f) :: u16), insns = f\<rparr>
      in if prctl prog < 0 then (False, [prog]) else (True, [prog]))"

text \<open>The conversion of an \<^verbatim>\<open>int\<close> to the \<^verbatim>\<open>bool\<close> a function returns.\<close>
definition int_to_bool :: "int \<Rightarrow> bool" where
  "int_to_bool i = (i \<noteq> 0)"

text \<open>The explicit allow entries of the two sections, in the order of the calls
  \<^verbatim>\<open>AllowSyscall(f, n)\<close> of \<^verbatim>\<open>set_seccomp_filter\<close>.\<close>
definition arm64_syscalls :: "u32 list" where
  "arm64_syscalls = [41, 31, 30, 178, 98, 220, 139, 240, 128, 278, 241, 130, 128, 267]"

definition arm_syscalls :: "u32 list" where
  "arm_syscalls = [120, 240, 119, 173, 363, 224, 383, 384, 190, 238, 0, 42, 364, 33, 195,
                   5, 141, 217, 351, 252, 85, 250, 8, 10, 196]"

text \<open>The body of \<^verbatim>\<open>set_seccomp_filter\<close> with the two lists of allow entries as
  parameters. The baseline tables \<^verbatim>\<open>arm64_filter\<close> and \<^verbatim>\<open>arm_filter\<close> of
  \<^verbatim>\<open>seccomp_policy.h\<close> are generated outside the repository and are parameters as well
  (\<^verbatim>\<open>arm64_filter_size\<close> is the length of the list). The loop that copies a table is a
  fold of \<open>push_back\<close>. A failed patch executes \<^verbatim>\<open>return -1\<close> in a function that
  returns \<^verbatim>\<open>bool\<close>.\<close>
definition set_seccomp_filter_with ::
  "u32 list \<Rightarrow> u32 list \<Rightarrow> (sock_fprog \<Rightarrow> int) \<Rightarrow> filter \<Rightarrow> filter \<Rightarrow> (bool \<times> sock_fprog list) option" where
  "set_seccomp_filter_with allow64 allow32 prctl arm64_filter arm_filter =
     (let (offset_to_32bit_filter, f) = ValidateArchitectureAndJumpIfNeeded [];
          f = ExamineSyscall f;
          f = foldl push_back f arm64_filter;
          f = foldl AllowSyscall f allow64;
          f = Trap f
      in case SetValidateArchitectureJumpTarget offset_to_32bit_filter f of
           None \<Rightarrow> None
         | Some (r, f) \<Rightarrow>
             if r \<noteq> 0 then Some (int_to_bool (- 1), [])
             else (let f = ExamineSyscall f;
                       f = foldl push_back f arm_filter;
                       f = foldl AllowSyscall f allow32;
                       f = Trap f
                   in Some (install_filter prctl f)))"

definition set_seccomp_filter ::
  "(sock_fprog \<Rightarrow> int) \<Rightarrow> filter \<Rightarrow> filter \<Rightarrow> (bool \<times> sock_fprog list) option" where
  "set_seccomp_filter = set_seccomp_filter_with arm64_syscalls arm_syscalls"

text \<open>What \<^verbatim>\<open>Seccomp_setPolicy\<close> does to the process: \<^verbatim>\<open>exit(1)\<close> or return to the caller.
  This is the function of the \<^verbatim>\<open>__arm__\<close> and \<^verbatim>\<open>__aarch64__\<close> builds; on any other build it has
  an empty body.\<close>
datatype process = Exited int | Continues

definition Seccomp_setPolicy ::
  "(sock_fprog \<Rightarrow> int) \<Rightarrow> filter \<Rightarrow> filter \<Rightarrow> (process \<times> sock_fprog list) option" where
  "Seccomp_setPolicy prctl arm64_filter arm_filter =
     (case set_seccomp_filter prctl arm64_filter arm_filter of
        None \<Rightarrow> None
      | Some (ok, calls) \<Rightarrow> Some (if \<not> ok then Exited 1 else Continues, calls))"

section \<open>Evaluation of a filter program\<close>

text \<open>The kernel evaluates an installed program on the \<^verbatim>\<open>seccomp_data\<close> of each system
  call. The evaluator below is the classic BPF machine restricted to the instructions that
  the kernel admits in a seccomp filter: an accumulator \<open>A\<close>, an index register \<open>X\<close> and
  sixteen scratch words \<open>M\<close> (unset until stored to). Jumps are relative and forward only.\<close>

record bpf_state =
  A :: u32
  X :: u32
  M :: "nat \<Rightarrow> u32 option"

definition init_state :: bpf_state where
  "init_state = \<lparr>A = 0, X = 0, M = (\<lambda>_. None)\<rparr>"

text \<open>\<^verbatim>\<open>BPF_LD|BPF_W|BPF_ABS\<close> reads the 32-bit word at a byte offset of
  \<^verbatim>\<open>struct seccomp_data\<close> (little endian); the offset must be a multiple of four inside
  the 64 bytes of the structure.\<close>
definition load_word :: "seccomp_data \<Rightarrow> u32 \<Rightarrow> u32 option" where
  "load_word d off =
     (if off = 0 then Some (nr d)
      else if off = 4 then Some (arch d)
      else if off = 8 then Some (ucast (instruction_pointer d))
      else if off = 12 then Some (ucast (drop_bit 32 (instruction_pointer d)))
      else if 16 \<le> off \<and> off < 64 \<and> off AND 3 = 0 then
        (let a = args d ((unat off - 16) div 8)
         in Some (if off AND 4 = 0 then ucast a else ucast (drop_bit 32 a)))
      else None)"

text \<open>The effect of one instruction: continue after skipping \<open>n\<close> following instructions,
  return a value, or be an instruction that the kernel does not admit.\<close>
datatype step = Next nat bpf_state | Ret u32 | Bad

definition alu_op :: "u16 \<Rightarrow> u32 \<Rightarrow> u32 \<Rightarrow> u32 option" where
  "alu_op opc a b =
     (if opc = BPF_ADD then Some (a + b)
      else if opc = BPF_SUB then Some (a - b)
      else if opc = BPF_MUL then Some (a * b)
      else if opc = BPF_DIV then (if b = 0 then None else Some (a div b))
      else if opc = BPF_OR then Some (a OR b)
      else if opc = BPF_AND then Some (a AND b)
      else if opc = BPF_XOR then Some (a XOR b)
      else if opc = BPF_LSH then (if b < 32 then Some (push_bit (unat b) a) else None)
      else if opc = BPF_RSH then (if b < 32 then Some (drop_bit (unat b) a) else None)
      else None)"

definition jmp_cond :: "u16 \<Rightarrow> u32 \<Rightarrow> u32 \<Rightarrow> bool option" where
  "jmp_cond opc a b =
     (if opc = BPF_JEQ then Some (a = b)
      else if opc = BPF_JGT then Some (b < a)
      else if opc = BPF_JGE then Some (b \<le> a)
      else if opc = BPF_JSET then Some (a AND b \<noteq> 0)
      else None)"

definition exec_insn :: "seccomp_data \<Rightarrow> sock_filter \<Rightarrow> bpf_state \<Rightarrow> step" where
  "exec_insn d i s =
     (let c = code i; kk = k i;
          opc = c AND 0xf0;
          src = c AND 0x08;
          operand = (if src = BPF_X then X s else kk)
      in
      if c = BPF_LD OR BPF_W OR BPF_ABS then
        (case load_word d kk of Some v \<Rightarrow> Next 0 (s\<lparr>A := v\<rparr>) | None \<Rightarrow> Bad)
      else if c = BPF_LD OR BPF_W OR BPF_LEN then Next 0 (s\<lparr>A := 64\<rparr>)
      else if c = BPF_LDX OR BPF_W OR BPF_LEN then Next 0 (s\<lparr>X := 64\<rparr>)
      else if c = BPF_LD OR BPF_IMM then Next 0 (s\<lparr>A := kk\<rparr>)
      else if c = BPF_LDX OR BPF_IMM then Next 0 (s\<lparr>X := kk\<rparr>)
      else if c = BPF_LD OR BPF_MEM then
        (if kk < 16 then (case M s (unat kk) of Some v \<Rightarrow> Next 0 (s\<lparr>A := v\<rparr>) | None \<Rightarrow> Bad)
         else Bad)
      else if c = BPF_LDX OR BPF_MEM then
        (if kk < 16 then (case M s (unat kk) of Some v \<Rightarrow> Next 0 (s\<lparr>X := v\<rparr>) | None \<Rightarrow> Bad)
         else Bad)
      else if c = BPF_ST then
        (if kk < 16 then Next 0 (s\<lparr>M := (M s)(unat kk \<mapsto> A s)\<rparr>) else Bad)
      else if c = BPF_STX then
        (if kk < 16 then Next 0 (s\<lparr>M := (M s)(unat kk \<mapsto> X s)\<rparr>) else Bad)
      else if c = BPF_ALU OR BPF_NEG then Next 0 (s\<lparr>A := - A s\<rparr>)
      else if c = BPF_ALU OR opc OR src then
        (if opc = BPF_DIV \<and> src = BPF_X \<and> X s = 0 then Ret 0
         else (case alu_op opc (A s) operand of Some v \<Rightarrow> Next 0 (s\<lparr>A := v\<rparr>) | None \<Rightarrow> Bad))
      else if c = BPF_JMP OR BPF_JA then Next (unat kk) s
      else if c = BPF_JMP OR opc OR src then
        (case jmp_cond opc (A s) operand of
           Some b \<Rightarrow> Next (unat (if b then jt i else jf i)) s
         | None \<Rightarrow> Bad)
      else if c = BPF_RET OR BPF_K then Ret kk
      else if c = BPF_RET OR BPF_A then Ret (A s)
      else if c = BPF_MISC OR BPF_TAX then Next 0 (s\<lparr>X := A s\<rparr>)
      else if c = BPF_MISC OR BPF_TXA then Next 0 (s\<lparr>A := X s\<rparr>)
      else Bad)"

text \<open>Running an instruction list from a program counter: it returns a value, or reaches an
  inadmissible instruction, or control leaves the list (at its end or beyond) in some
  state.\<close>
datatype outcome = Returned u32 | Exit nat bpf_state | Invalid

function run_from :: "filter \<Rightarrow> seccomp_data \<Rightarrow> nat \<Rightarrow> bpf_state \<Rightarrow> outcome" where
  "run_from prog d pc s =
     (if pc < length prog then
        (case exec_insn d (prog ! pc) s of
           Next n s' \<Rightarrow> run_from prog d (pc + 1 + n) s'
         | Ret v \<Rightarrow> Returned v
         | Bad \<Rightarrow> Invalid)
      else Exit pc s)"
  by pat_completeness auto
termination
  by (relation "measure (\<lambda>(prog, d, pc, s). length prog - pc)") auto

declare run_from.simps [simp del]

text \<open>The program counters that the run visits, in order.\<close>
function visited :: "filter \<Rightarrow> seccomp_data \<Rightarrow> nat \<Rightarrow> bpf_state \<Rightarrow> nat list" where
  "visited prog d pc s =
     (if pc < length prog then
        pc # (case exec_insn d (prog ! pc) s of
                Next n s' \<Rightarrow> visited prog d (pc + 1 + n) s'
              | Ret v \<Rightarrow> []
              | Bad \<Rightarrow> [])
      else [])"
  by pat_completeness auto
termination
  by (relation "measure (\<lambda>(prog, d, pc, s). length prog - pc)") auto

declare visited.simps [simp del]

text \<open>The value the kernel gets from a whole program on one system call; \<open>None\<close> when the
  program does not return one.\<close>
fun returned_value :: "outcome \<Rightarrow> u32 option" where
  "returned_value (Returned v) = Some v"
| "returned_value (Exit pc s) = None"
| "returned_value Invalid = None"

definition seccomp_run :: "filter \<Rightarrow> seccomp_data \<Rightarrow> u32 option" where
  "seccomp_run prog d = returned_value (run_from prog d 0 init_state)"

text \<open>The program that the build hands to the kernel, if it hands over one. What the kernel
  answers has no influence on the program.\<close>
definition assembled_with :: "u32 list \<Rightarrow> u32 list \<Rightarrow> filter \<Rightarrow> filter \<Rightarrow> filter option" where
  "assembled_with allow64 allow32 arm64_filter arm_filter =
     (case set_seccomp_filter_with allow64 allow32 (\<lambda>_. 0) arm64_filter arm_filter of
        Some (ok, [prog]) \<Rightarrow> Some (insns prog)
      | _ \<Rightarrow> None)"

definition assembled_program :: "filter \<Rightarrow> filter \<Rightarrow> filter option" where
  "assembled_program = assembled_with arm64_syscalls arm_syscalls"

text \<open>The allow entries of the 64-bit section without the second entry for 128
  (\<^verbatim>\<open>__NR_restart_syscall\<close>), which the source appends twice.\<close>
definition arm64_syscalls_once :: "u32 list" where
  "arm64_syscalls_once = [41, 31, 30, 178, 98, 220, 139, 240, 128, 278, 241, 130, 267]"

text \<open>Modelled from the spec: the baseline tables \<^verbatim>\<open>arm64_filter\<close> and \<^verbatim>\<open>arm_filter\<close> are
  missing from the sources and are parameters of the build. The spec calls a baseline
  fragment an opaque instruction sequence that stands for "more allowed syscalls": on a
  call it either returns Allow or hands the call on to the explicit allow entries. The
  predicates below say this of a fragment on one call.

  A baseline fragment runs with the system call number in the accumulator, right after the
  load that opens its section.\<close>
definition run_baseline :: "filter \<Rightarrow> seccomp_data \<Rightarrow> outcome" where
  "run_baseline frag d = run_from frag d 0 (init_state\<lparr>A := nr d\<rparr>)"

text \<open>The fragment allows the call by itself.\<close>
definition baseline_allows :: "filter \<Rightarrow> seccomp_data \<Rightarrow> bool" where
  "baseline_allows frag d = (run_baseline frag d = Returned SECCOMP_RET_ALLOW)"

text \<open>The fragment does not decide the call: control leaves it exactly at its end, with the
  system call number still in the accumulator.\<close>
definition falls_through :: "filter \<Rightarrow> seccomp_data \<Rightarrow> bool" where
  "falls_through frag d =
     (case run_baseline frag d of
        Exit pc s \<Rightarrow> pc = length frag \<and> A s = nr d
      | Returned v \<Rightarrow> False
      | Invalid \<Rightarrow> False)"

text \<open>The fragment never jumps past its own end.\<close>
definition stays_inside :: "filter \<Rightarrow> seccomp_data \<Rightarrow> bool" where
  "stays_inside frag d =
     (case run_baseline frag d of
        Exit pc s \<Rightarrow> pc = length frag
      | Returned v \<Rightarrow> True
      | Invalid \<Rightarrow> True)"

section \<open>The shape of the assembled program\<close>

text \<open>The instructions that a run of \<open>AllowSyscall\<close> over a list of numbers appends.\<close>
definition allow_pairs :: "u32 list \<Rightarrow> filter" where
  "allow_pairs ns = concat (map (\<lambda>n. [BPF_JUMP (BPF_JMP OR BPF_JEQ OR BPF_K) n 0 1,
                                       BPF_STMT (BPF_RET OR BPF_K) SECCOMP_RET_ALLOW]) ns)"

text \<open>One architecture section: the load of the system call number, the baseline fragment,
  the allow entries, the final \<open>Trap\<close>.\<close>
definition section_code :: "u32 list \<Rightarrow> filter \<Rightarrow> filter" where
  "section_code ns frag =
     BPF_STMT (BPF_LD OR BPF_W OR BPF_ABS) syscall_nr # frag @ allow_pairs ns @
     [BPF_STMT (BPF_RET OR BPF_K) SECCOMP_RET_TRAP]"

text \<open>The four instructions of \<open>ValidateArchitectureAndJumpIfNeeded\<close>, with the true-skip
  \<open>j\<close> of the third one (1 as emitted, the jump length once patched).\<close>
definition dispatcher :: "u8 \<Rightarrow> filter" where
  "dispatcher j =
     [BPF_STMT (BPF_LD OR BPF_W OR BPF_ABS) arch_nr,
      BPF_JUMP (BPF_JMP OR BPF_JEQ OR BPF_K) AUDIT_ARCH_AARCH64 2 0,
      BPF_JUMP (BPF_JMP OR BPF_JEQ OR BPF_K) AUDIT_ARCH_ARM j 0,
      BPF_STMT (BPF_RET OR BPF_K) SECCOMP_RET_TRAP]"

text \<open>The vector at the call of \<open>SetValidateArchitectureJumpTarget\<close>.\<close>
definition prepatch :: "u32 list \<Rightarrow> filter \<Rightarrow> filter" where
  "prepatch allow64 a64 = dispatcher 1 @ section_code allow64 a64"

text \<open>The vector at the call of \<open>install_filter\<close>.\<close>
definition layout :: "u32 list \<Rightarrow> u32 list \<Rightarrow> filter \<Rightarrow> filter \<Rightarrow> filter" where
  "layout allow64 allow32 a64 a32 =
     dispatcher (of_nat (3 + length a64 + 2 * length allow64)) @
     section_code allow64 a64 @ section_code allow32 a32"

text \<open>An outcome seen from a program that has \<open>n\<close> more instructions in front.\<close>
fun shift :: "nat \<Rightarrow> outcome \<Rightarrow> outcome" where
  "shift n (Exit pc s) = Exit (n + pc) s"
| "shift n (Returned v) = Returned v"
| "shift n Invalid = Invalid"

text \<open>A small baseline fragment of the generated kind, and a system call record, for
  concrete runs: the fragment allows the numbers below 200 and passes the others on.\<close>
definition example_baseline :: filter where
  "example_baseline =
     [BPF_JUMP (BPF_JMP OR BPF_JGE OR BPF_K) 200 1 0,
      BPF_STMT (BPF_RET OR BPF_K) SECCOMP_RET_ALLOW]"

definition example_call :: "u32 \<Rightarrow> u32 \<Rightarrow> seccomp_data" where
  "example_call a n = \<lparr>nr = n, arch = a, instruction_pointer = 0, args = (\<lambda>_. 0)\<rparr>"

subsection \<open>Builders as list operations\<close>

lemma foldl_push_back: "foldl push_back f xs = f @ xs"
  by (induction xs arbitrary: f) (simp_all add: push_back_def)

lemma foldl_AllowSyscall: "foldl AllowSyscall f ns = f @ allow_pairs ns"
  by (induction ns arbitrary: f) (simp_all add: AllowSyscall_def Allow_def push_back_def allow_pairs_def)

lemma length_allow_pairs: "length (allow_pairs ns) = 2 * length ns"
  by (induction ns) (simp_all add: allow_pairs_def)

lemma ValidateArchitectureAndJumpIfNeeded_eq:
  "ValidateArchitectureAndJumpIfNeeded f = (of_nat (length f) + 2, f @ dispatcher 1)"
  by (simp add: ValidateArchitectureAndJumpIfNeeded_def Trap_def push_back_def dispatcher_def Let_def)

lemma unat_ucast_down: "unat (ucast (w :: size_t) :: u8) = unat w mod 256"
  by (simp only: unsigned_ucast_eq take_bit_eq_mod) simp

lemma unat_ucast_up: "unat (ucast (v :: u8) :: size_t) = unat v"
proof -
  have "unat v < 2 ^ LENGTH(8)" by (rule unsigned_less)
  also have "(2::nat) ^ LENGTH(8) \<le> 2 ^ 64" by simp
  finally have "take_bit 64 (unat v) = unat v" by (rule take_bit_nat_eq_self)
  then show ?thesis by (simp add: unsigned_ucast_eq)
qed

lemma mod_256_self: "((n::nat) mod 256 = n) = (n \<le> 255)"
proof (cases "n < 256")
  case True then show ?thesis by simp
next
  case False
  have "n mod 256 < 256" by simp
  with False show ?thesis by linarith
qed

lemma ucast_u8_roundtrip:
  "((ucast (ucast (w :: size_t) :: u8) :: size_t) = w) = (unat w \<le> 255)"
proof -
  have "((ucast (ucast w :: u8) :: size_t) = w) = (unat (ucast (ucast w :: u8) :: size_t) = unat w)"
    by (simp only: word_unat_eq_iff)
  then show ?thesis
    by (simp only: unat_ucast_up unat_ucast_down mod_256_self)
qed

lemma ucast_of_nat_u8: "(ucast (of_nat n :: size_t) :: u8) = of_nat n"
  by (simp add: word_unat_eq_iff unsigned_ucast_eq unsigned_of_nat)

lemma SetValidate_nat:
  assumes "i < length f" "length f < 2 ^ 64"
  shows "SetValidateArchitectureJumpTarget (of_nat i) f =
     (if 255 < length f - i - 1 then Some (- 1, f)
      else Some (0, f[i := BPF_JUMP (BPF_JMP OR BPF_JEQ OR BPF_K) AUDIT_ARCH_ARM (of_nat (length f - i - 1)) 0]))"
proof -
  have sub: "(of_nat (length f) :: size_t) - of_nat i - 1 = of_nat (length f - i - 1)"
    using assms(1) by simp
  have un: "unat (of_nat (length f - i - 1) :: size_t) = length f - i - 1"
    using assms(2) by (simp add: unat_of_nat)
  have ui: "unat (of_nat i :: size_t) = i"
    using assms by (simp add: unat_of_nat)
  show ?thesis
    unfolding SetValidateArchitectureJumpTarget_def Let_def sub ucast_u8_roundtrip un ui ucast_of_nat_u8
    using assms(1) by auto
qed


lemma length_prepatch: "length (prepatch l a) = 6 + length a + 2 * length l"
  by (simp add: prepatch_def dispatcher_def section_code_def length_allow_pairs)

lemma set_seccomp_filter_with_unfold:
  "set_seccomp_filter_with l64 l32 prctl a64 a32 =
     (case SetValidateArchitectureJumpTarget 2 (prepatch l64 a64) of
        None \<Rightarrow> None
      | Some (r, f) \<Rightarrow>
          if r \<noteq> 0 then Some (int_to_bool (- 1), [])
          else Some (install_filter prctl (f @ section_code l32 a32)))"
  by (simp add: set_seccomp_filter_with_def ValidateArchitectureAndJumpIfNeeded_eq
      ExamineSyscall_def Trap_def foldl_push_back foldl_AllowSyscall push_back_def
      prepatch_def section_code_def Let_def split: option.split)

lemma prepatch_update:
  "(prepatch l a)[2 := BPF_JUMP (BPF_JMP OR BPF_JEQ OR BPF_K) AUDIT_ARCH_ARM j 0] =
     dispatcher j @ section_code l a"
  by (simp add: prepatch_def dispatcher_def numeral_2_eq_2)

lemma patch_prepatch:
  assumes "length a64 + 2 * length l64 < 2 ^ 32"
  shows "SetValidateArchitectureJumpTarget 2 (prepatch l64 a64) =
     (if 255 < 3 + length a64 + 2 * length l64 then Some (- 1, prepatch l64 a64)
      else Some (0, dispatcher (of_nat (3 + length a64 + 2 * length l64)) @ section_code l64 a64))"
proof -
  have lt: "2 < length (prepatch l64 a64)" by (simp add: length_prepatch)
  have "length (prepatch l64 a64) < 6 + 2 ^ 32" using assms by (simp add: length_prepatch)
  also have "\<dots> < (2::nat) ^ 64" by simp
  finally have bd: "length (prepatch l64 a64) < 2 ^ 64" .
  have d: "length (prepatch l64 a64) - 2 - 1 = 3 + length a64 + 2 * length l64"
    by (simp add: length_prepatch)
  have "SetValidateArchitectureJumpTarget (of_nat 2) (prepatch l64 a64) =
     (if 255 < 3 + length a64 + 2 * length l64 then Some (- 1, prepatch l64 a64)
      else Some (0, dispatcher (of_nat (3 + length a64 + 2 * length l64)) @ section_code l64 a64))"
    unfolding SetValidate_nat [OF lt bd] d prepatch_update ..
  then show ?thesis by simp
qed

lemma set_seccomp_filter_with_ok:
  assumes "3 + length a64 + 2 * length l64 \<le> 255"
  shows "set_seccomp_filter_with l64 l32 prctl a64 a32 =
           Some (install_filter prctl (layout l64 l32 a64 a32))"
proof -
  have "length a64 + 2 * length l64 < 256" using assms by simp
  also have "\<dots> < (2::nat) ^ 32" by simp
  finally have b: "length a64 + 2 * length l64 < 2 ^ 32" .
  show ?thesis
    using assms by (simp add: set_seccomp_filter_with_unfold patch_prepatch [OF b] layout_def)
qed

lemma set_seccomp_filter_with_fail:
  assumes "255 < 3 + length a64 + 2 * length l64" "length a64 + 2 * length l64 < 2 ^ 32"
  shows "set_seccomp_filter_with l64 l32 prctl a64 a32 = Some (True, [])"
  using assms(1) by (simp add: set_seccomp_filter_with_unfold patch_prepatch [OF assms(2)] int_to_bool_def)

section \<open>Running composed programs\<close>

lemma shift_shift [simp]: "shift a (shift b r) = shift (a + b) r"
  by (cases r) simp_all

lemma shift_0 [simp]: "shift 0 r = r"
  by (cases r) simp_all

lemma returned_value_shift [simp]: "returned_value (shift n r) = returned_value r"
  by (cases r) simp_all

lemma exec_ld_nr:
  "exec_insn d (BPF_STMT (BPF_LD OR BPF_W OR BPF_ABS) syscall_nr) s = Next 0 (s\<lparr>A := nr d\<rparr>)"
  by (simp add: exec_insn_def bpf_defs load_word_def Let_def)

lemma exec_ld_arch:
  "exec_insn d (BPF_STMT (BPF_LD OR BPF_W OR BPF_ABS) arch_nr) s = Next 0 (s\<lparr>A := arch d\<rparr>)"
  by (simp add: exec_insn_def bpf_defs load_word_def Let_def)

lemma exec_jeq:
  "exec_insn d (BPF_JUMP (BPF_JMP OR BPF_JEQ OR BPF_K) v t f) s =
     Next (unat (if A s = v then t else f)) s"
  by (simp add: exec_insn_def bpf_defs jmp_cond_def Let_def)

lemma exec_ret:
  "exec_insn d (BPF_STMT (BPF_RET OR BPF_K) v) s = Ret v"
  by (simp add: exec_insn_def bpf_defs Let_def)

lemma run_from_shift:
  "run_from (pre @ frag) d (length pre + pc) s = shift (length pre) (run_from frag d pc s)"
proof (induction frag d pc s rule: run_from.induct)
  case (1 prog d pc s)
  show ?case
  proof (cases "pc < length prog")
    case False
    then show ?thesis by (simp add: run_from.simps [of _ d _ s])
  next
    case True
    show ?thesis
    proof (cases "exec_insn d (prog ! pc) s")
      case (Next n s')
      have "run_from (pre @ prog) d (length pre + (pc + 1 + n)) s' =
            shift (length pre) (run_from prog d (pc + 1 + n) s')"
        using "1.IH" True Next by simp
      then show ?thesis
        using True Next
        by (simp add: run_from.simps [of _ d _ s] nth_append add.assoc)
    next
      case (Ret v)
      then show ?thesis using True by (simp add: run_from.simps [of _ d _ s] nth_append)
    next
      case Bad
      then show ?thesis using True by (simp add: run_from.simps [of _ d _ s] nth_append)
    qed
  qed
qed

lemma run_from_append:
  "run_from (frag @ post) d pc s =
     (case run_from frag d pc s of
        Returned v \<Rightarrow> Returned v
      | Exit pc' s' \<Rightarrow> run_from (frag @ post) d pc' s'
      | Invalid \<Rightarrow> Invalid)"
proof (induction frag d pc s rule: run_from.induct)
  case (1 prog d pc s)
  show ?case
  proof (cases "pc < length prog")
    case False
    then show ?thesis by (simp add: run_from.simps [of prog d pc s])
  next
    case True
    show ?thesis
    proof (cases "exec_insn d (prog ! pc) s")
      case (Next n s')
      then show ?thesis
        using True "1.IH" [OF True Next]
        by (simp add: run_from.simps [of _ d pc s] nth_append)
    next
      case (Ret v)
      then show ?thesis using True by (simp add: run_from.simps [of _ d pc s] nth_append)
    next
      case Bad
      then show ?thesis using True by (simp add: run_from.simps [of _ d pc s] nth_append)
    qed
  qed
qed

lemma run_from_Cons:
  "run_from (i # rest) d 0 s =
     (case exec_insn d i s of
        Next n s' \<Rightarrow> shift 1 (run_from rest d n s')
      | Ret v \<Rightarrow> Returned v
      | Bad \<Rightarrow> Invalid)"
proof -
  have "run_from ([i] @ rest) d (length [i] + n) s' = shift (length [i]) (run_from rest d n s')" for n s'
    by (rule run_from_shift)
  then show ?thesis
    by (simp add: run_from.simps [of _ d 0 s] split: step.split)
qed

lemma allow_pairs_Cons:
  "allow_pairs (n # ns) =
     BPF_JUMP (BPF_JMP OR BPF_JEQ OR BPF_K) n 0 1 #
     BPF_STMT (BPF_RET OR BPF_K) SECCOMP_RET_ALLOW # allow_pairs ns"
  by (simp add: allow_pairs_def)

lemma run_allow_pairs:
  "run_from (allow_pairs ns @ rest) d 0 s =
     (if A s \<in> set ns then Returned SECCOMP_RET_ALLOW
      else shift (2 * length ns) (run_from rest d 0 s))"
proof (induction ns)
  case Nil
  show ?case by (simp add: allow_pairs_def)
next
  case (Cons n ns)
  show ?case
  proof (cases "A s = n")
    case True
    then show ?thesis
      by (simp add: allow_pairs_Cons run_from_Cons exec_jeq exec_ret)
  next
    case False
    have "run_from (BPF_STMT (BPF_RET OR BPF_K) SECCOMP_RET_ALLOW # allow_pairs ns @ rest) d (Suc 0) s
          = shift 1 (run_from (allow_pairs ns @ rest) d 0 s)"
      using run_from_shift [of "[BPF_STMT (BPF_RET OR BPF_K) SECCOMP_RET_ALLOW]" "allow_pairs ns @ rest" d 0 s]
      by simp
    with False Cons show ?thesis
      by (simp add: allow_pairs_Cons run_from_Cons exec_jeq)
  qed
qed

lemma run_section_tail:
  "run_from (allow_pairs ns @ BPF_STMT (BPF_RET OR BPF_K) SECCOMP_RET_TRAP # post) d 0 s =
     Returned (if A s \<in> set ns then SECCOMP_RET_ALLOW else SECCOMP_RET_TRAP)"
  by (simp add: run_allow_pairs run_from_Cons exec_ret)

lemma run_section:
  "run_from (section_code ns frag @ post) d 0 s =
     (case run_from frag d 0 (s\<lparr>A := nr d\<rparr>) of
        Returned v \<Rightarrow> Returned v
      | Invalid \<Rightarrow> Invalid
      | Exit pc' s' \<Rightarrow>
          if pc' = length frag
          then Returned (if A s' \<in> set ns then SECCOMP_RET_ALLOW else SECCOMP_RET_TRAP)
          else shift 1 (run_from (frag @ allow_pairs ns @
                                  BPF_STMT (BPF_RET OR BPF_K) SECCOMP_RET_TRAP # post) d pc' s'))"
proof -
  let ?tail = "allow_pairs ns @ BPF_STMT (BPF_RET OR BPF_K) SECCOMP_RET_TRAP # post"
  have tail: "run_from (frag @ ?tail) d (length frag) s' =
          Returned (if A s' \<in> set ns then SECCOMP_RET_ALLOW else SECCOMP_RET_TRAP)" for s'
    using run_from_shift [of frag ?tail d 0 s'] by (simp add: run_section_tail)
  have "run_from (section_code ns frag @ post) d 0 s =
          shift 1 (run_from (frag @ ?tail) d 0 (s\<lparr>A := nr d\<rparr>))"
    by (simp add: section_code_def run_from_Cons exec_ld_nr)
  also have "run_from (frag @ ?tail) d 0 (s\<lparr>A := nr d\<rparr>) =
     (case run_from frag d 0 (s\<lparr>A := nr d\<rparr>) of
        Returned v \<Rightarrow> Returned v
      | Exit pc' s' \<Rightarrow> run_from (frag @ ?tail) d pc' s'
      | Invalid \<Rightarrow> Invalid)"
    by (rule run_from_append)
  finally show ?thesis
    by (simp add: tail split: outcome.split)
qed

lemma run_from_Suc:
  "run_from (i # rest) d (Suc n) s = shift 1 (run_from rest d n s)"
  using run_from_shift [of "[i]" rest d n s] by simp

lemma run_dispatcher:
  "run_from (dispatcher j @ rest) d 0 s =
     (if arch d = AUDIT_ARCH_AARCH64 then shift 4 (run_from rest d 0 (s\<lparr>A := arch d\<rparr>))
      else if arch d = AUDIT_ARCH_ARM
        then shift 3 (run_from (BPF_STMT (BPF_RET OR BPF_K) SECCOMP_RET_TRAP # rest) d (unat j)
                        (s\<lparr>A := arch d\<rparr>))
      else Returned SECCOMP_RET_TRAP)"
proof -
  have two: "run_from (a # b # rest) d 2 s' = shift 2 (run_from rest d 0 s')" for a b s'
    using run_from_shift [of "[a, b]" rest d 0 s'] by (simp add: numeral_2_eq_2)
  have four: "(4::nat) = Suc (Suc (Suc (Suc 0)))" by simp
  show ?thesis
    by (simp add: dispatcher_def run_from_Cons exec_ld_arch exec_jeq exec_ret two
        numeral_3_eq_3 four)
qed

lemma run_dispatcher_arm:
  assumes "arch d = AUDIT_ARCH_ARM" "0 < unat j"
  shows "run_from (dispatcher j @ rest) d 0 s =
           shift 4 (run_from rest d (unat j - 1) (s\<lparr>A := arch d\<rparr>))"
proof -
  have ne: "AUDIT_ARCH_ARM \<noteq> AUDIT_ARCH_AARCH64" by (simp add: bpf_defs)
  obtain m where m: "unat j = Suc m" using assms(2) by (cases "unat j") simp_all
  show ?thesis using assms(1) ne by (simp add: run_dispatcher m run_from_Suc)
qed

lemma unat_jump: "n \<le> 255 \<Longrightarrow> unat (of_nat n :: u8) = n"
  by (simp add: unat_of_nat)

lemma run_layout:
  assumes "3 + length a64 + 2 * length l64 \<le> 255"
  shows "seccomp_run (layout l64 l32 a64 a32) d =
     (if arch d = AUDIT_ARCH_AARCH64
        then returned_value (run_from (section_code l64 a64 @ section_code l32 a32) d 0
                              (init_state\<lparr>A := arch d\<rparr>))
      else if arch d = AUDIT_ARCH_ARM
        then returned_value (run_from (section_code l32 a32) d 0 (init_state\<lparr>A := arch d\<rparr>))
      else Some SECCOMP_RET_TRAP)"
proof -
  let ?j = "of_nat (3 + length a64 + 2 * length l64) :: u8"
  have uj: "unat ?j = 3 + length a64 + 2 * length l64"
    using assms by (rule unat_jump)
  have len: "length (section_code l64 a64) = 2 + length a64 + 2 * length l64"
    by (simp add: section_code_def length_allow_pairs)
  have sv: "seccomp_run p d = returned_value (run_from p d 0 init_state)" for p
    by (simp add: seccomp_run_def split: outcome.split)
  show ?thesis
  proof (cases "arch d = AUDIT_ARCH_AARCH64")
    case True
    then show ?thesis by (simp add: sv layout_def run_dispatcher)
  next
    case False
    show ?thesis
    proof (cases "arch d = AUDIT_ARCH_ARM")
      case True
      have "run_from (section_code l64 a64 @ section_code l32 a32) d
              (length (section_code l64 a64) + 0) s =
            shift (length (section_code l64 a64)) (run_from (section_code l32 a32) d 0 s)" for s
        by (rule run_from_shift)
      then show ?thesis
        using True False uj
        by (simp add: sv layout_def run_dispatcher_arm len)
    next
      case nArm: False
      with False show ?thesis by (simp add: sv layout_def run_dispatcher)
    qed
  qed
qed

subsection \<open>Visited program counters\<close>

lemma visited_shift:
  "visited (pre @ frag) d (length pre + pc) s = map ((+) (length pre)) (visited frag d pc s)"
proof (induction frag d pc s rule: visited.induct)
  case (1 prog d pc s)
  show ?case
  proof (cases "pc < length prog")
    case False
    then show ?thesis by (simp add: visited.simps [of _ d _ s])
  next
    case True
    show ?thesis
    proof (cases "exec_insn d (prog ! pc) s")
      case (Next n s')
      have "visited (pre @ prog) d (length pre + (pc + 1 + n)) s' =
            map ((+) (length pre)) (visited prog d (pc + 1 + n) s')"
        using "1.IH" True Next by simp
      then show ?thesis
        using True Next
        by (simp add: visited.simps [of _ d _ s] nth_append add.assoc)
    next
      case (Ret v)
      then show ?thesis using True by (simp add: visited.simps [of _ d _ s] nth_append)
    next
      case Bad
      then show ?thesis using True by (simp add: visited.simps [of _ d _ s] nth_append)
    qed
  qed
qed



lemma visited_Cons:
  "visited (i # rest) d 0 s =
     0 # (case exec_insn d i s of
            Next n s' \<Rightarrow> map Suc (visited rest d n s')
          | Ret v \<Rightarrow> []
          | Bad \<Rightarrow> [])"
proof -
  have "visited ([i] @ rest) d (length [i] + n) s' = map ((+) (length [i])) (visited rest d n s')" for n s'
    by (rule visited_shift)
  then show ?thesis
    by (simp add: visited.simps [of _ d 0 s] split: step.split)
qed


lemma visited_dispatcher:
  "visited (dispatcher j @ rest) d 0 s =
     (if arch d = AUDIT_ARCH_AARCH64
        then [0, 1] @ map ((+) 4) (visited rest d 0 (s\<lparr>A := arch d\<rparr>))
      else if arch d = AUDIT_ARCH_ARM
        then [0, 1, 2] @ map ((+) 3) (visited (BPF_STMT (BPF_RET OR BPF_K) SECCOMP_RET_TRAP # rest) d
                                       (unat j) (s\<lparr>A := arch d\<rparr>))
      else [0, 1, 2, 3])"
proof -
  have two: "visited (a # b # rest) d 2 s' = map ((+) 2) (visited rest d 0 s')" for a b s'
    using visited_shift [of "[a, b]" rest d 0 s'] by (simp add: numeral_2_eq_2)
  have four: "(4::nat) = Suc (Suc (Suc (Suc 0)))" by simp
  have s4: "Suc \<circ> (Suc \<circ> (+) 2) = (+) 4" by (rule ext) simp
  have s3: "Suc \<circ> (Suc \<circ> Suc) = (+) 3" by (rule ext) simp
  show ?thesis
    by (simp add: dispatcher_def visited_Cons exec_ld_arch exec_jeq exec_ret two s4 s3 visited.simps [of "[]"])
qed

subsection \<open>What \<open>set_seccomp_filter\<close> hands to the kernel\<close>

lemma assembled_with_ok:
  assumes "3 + length a64 + 2 * length l64 \<le> 255"
  shows "assembled_with l64 l32 a64 a32 = Some (layout l64 l32 a64 a32)"
  by (simp add: assembled_with_def set_seccomp_filter_with_ok [OF assms] install_filter_def)

lemma assembled_program_ok:
  assumes "length a64 \<le> 224"
  shows "assembled_program a64 a32 = Some (layout arm64_syscalls arm_syscalls a64 a32)"
proof -
  have "3 + length a64 + 2 * length arm64_syscalls \<le> 255"
    using assms by (simp add: arm64_syscalls_def)
  then show ?thesis unfolding assembled_program_def by (rule assembled_with_ok)
qed

lemma set_seccomp_filter_installs_assembled:
  assumes "length a64 \<le> 224"
  shows "\<exists>f. assembled_program a64 a32 = Some f
           \<and> set_seccomp_filter prctl a64 a32 = Some (install_filter prctl f)"
proof -
  have "3 + length a64 + 2 * length arm64_syscalls \<le> 255"
    using assms by (simp add: arm64_syscalls_def)
  then have "set_seccomp_filter prctl a64 a32 =
               Some (install_filter prctl (layout arm64_syscalls arm_syscalls a64 a32))"
    unfolding set_seccomp_filter_def by (rule set_seccomp_filter_with_ok)
  with assembled_program_ok [OF assms] show ?thesis by simp
qed

lemma set_seccomp_filter_patch_failure:
  assumes "224 < length a64" "length a64 < 2 ^ 31"
  shows "set_seccomp_filter prctl a64 a32 = Some (True, [])"
proof -
  have a: "255 < 3 + length a64 + 2 * length arm64_syscalls"
    using assms(1) by (simp add: arm64_syscalls_def)
  have "length a64 + 2 * length arm64_syscalls < 2 ^ 31 + 2 ^ 31"
    using assms(2) by (simp add: arm64_syscalls_def)
  then have b: "length a64 + 2 * length arm64_syscalls < 2 ^ 32" by simp
  show ?thesis unfolding set_seccomp_filter_def
    using a b by (rule set_seccomp_filter_with_fail)
qed

lemma Seccomp_setPolicy_install_failure_exits:
  assumes "length arm64_filter \<le> 224" "\<forall>prog. prctl prog < 0"
  shows "\<exists>prog. Seccomp_setPolicy prctl arm64_filter arm_filter = Some (Exited 1, [prog])"
proof -
  have "3 + length arm64_filter + 2 * length arm64_syscalls \<le> 255"
    using assms(1) by (simp add: arm64_syscalls_def)
  then show ?thesis
    using assms(2)
    by (simp add: Seccomp_setPolicy_def set_seccomp_filter_def set_seccomp_filter_with_ok
        install_filter_def)
qed

lemma patched_jump_lands:
  assumes "i < length f" "length f - i - 1 \<le> 255"
  defines "f' \<equiv> f[i := BPF_JUMP (BPF_JMP OR BPF_JEQ OR BPF_K) AUDIT_ARCH_ARM
                             (of_nat (length f - i - 1)) 0]"
  shows "unat (jt (f' ! i)) = length f - i - 1"
    and "A s = AUDIT_ARCH_ARM \<Longrightarrow> exec_insn d (f' ! i) s = Next (length f - i - 1) s"
    and "A s = AUDIT_ARCH_ARM \<Longrightarrow> run_from (f' @ g) d i s = run_from (f' @ g) d (length f) s"
proof -
  let ?n = "length f - i - 1"
  let ?p = "BPF_JUMP (BPF_JMP OR BPF_JEQ OR BPF_K) AUDIT_ARCH_ARM (of_nat ?n) 0"
  have un: "unat (of_nat ?n :: u8) = ?n" using assms(2) by (rule unat_jump)
  have nth: "f' ! i = ?p" using assms(1) by (simp add: f'_def)
  have "jt ?p = of_nat ?n" by (simp add: BPF_JUMP_def)
  then show "unat (jt (f' ! i)) = ?n" by (simp only: nth un)
  show ex: "exec_insn d (f' ! i) s = Next ?n s" if "A s = AUDIT_ARCH_ARM"
    using that un by (simp add: nth exec_jeq)
  have tgt: "i + 1 + ?n = length f" using assms(1) by simp
  have lt: "i < length (f' @ g)" using assms(1) by (simp add: f'_def)
  have app: "(f' @ g) ! i = f' ! i" using assms(1) by (simp add: nth_append f'_def)
  assume arm: "A s = AUDIT_ARCH_ARM"
  have "run_from (f' @ g) d i s =
          (case exec_insn d ((f' @ g) ! i) s of
             Next n s' \<Rightarrow> run_from (f' @ g) d (i + 1 + n) s'
           | Ret v \<Rightarrow> Returned v
           | Bad \<Rightarrow> Invalid)"
    using lt by (subst run_from.simps) simp
  also have "\<dots> = run_from (f' @ g) d (i + 1 + ?n) s"
    by (simp only: app ex [OF arm] step.case)
  finally show "run_from (f' @ g) d i s = run_from (f' @ g) d (length f) s"
    by (simp only: tgt)
qed

subsection \<open>Runs of the assembled program\<close>

lemma section_start_state: "init_state\<lparr>A := a, A := b\<rparr> = init_state\<lparr>A := b\<rparr>"
  by simp

lemma run_section_baseline:
  "run_from (section_code ns frag @ post) d 0 (init_state\<lparr>A := a\<rparr>) =
     (case run_baseline frag d of
        Returned v \<Rightarrow> Returned v
      | Invalid \<Rightarrow> Invalid
      | Exit pc' s' \<Rightarrow>
          if pc' = length frag
          then Returned (if A s' \<in> set ns then SECCOMP_RET_ALLOW else SECCOMP_RET_TRAP)
          else shift 1 (run_from (frag @ allow_pairs ns @
                                  BPF_STMT (BPF_RET OR BPF_K) SECCOMP_RET_TRAP # post) d pc' s'))"
  by (simp only: run_section run_baseline_def section_start_state)

lemma run_section_falls_through:
  assumes "falls_through frag d"
  shows "run_from (section_code ns frag @ post) d 0 (init_state\<lparr>A := a\<rparr>) =
           Returned (if nr d \<in> set ns then SECCOMP_RET_ALLOW else SECCOMP_RET_TRAP)"
  using assms
  by (auto simp: run_section_baseline falls_through_def split: outcome.splits)

lemma run_section_allows:
  assumes "baseline_allows frag d"
  shows "run_from (section_code ns frag @ post) d 0 (init_state\<lparr>A := a\<rparr>) =
           Returned SECCOMP_RET_ALLOW"
  using assms
  by (simp add: run_section_baseline baseline_allows_def)

lemma run_layout_arm64:
  assumes "3 + length a64 + 2 * length l64 \<le> 255" "arch d = AUDIT_ARCH_AARCH64"
    "falls_through a64 d"
  shows "seccomp_run (layout l64 l32 a64 a32) d =
           Some (if nr d \<in> set l64 then SECCOMP_RET_ALLOW else SECCOMP_RET_TRAP)"
  using assms(2) by (simp add: run_layout [OF assms(1)] run_section_falls_through [OF assms(3)])

lemma arch_consts_differ: "AUDIT_ARCH_ARM \<noteq> AUDIT_ARCH_AARCH64"
  by (simp add: bpf_defs)

lemma run_layout_arm:
  assumes "3 + length a64 + 2 * length l64 \<le> 255" "arch d = AUDIT_ARCH_ARM"
    "falls_through a32 d"
  shows "seccomp_run (layout l64 l32 a64 a32) d =
           Some (if nr d \<in> set l32 then SECCOMP_RET_ALLOW else SECCOMP_RET_TRAP)"
  using assms(2) arch_consts_differ run_section_falls_through [OF assms(3), of l32 "[]"]
  by (simp add: run_layout [OF assms(1)])

lemma patch_bound: "length a64 \<le> 224 \<Longrightarrow> 3 + length a64 + 2 * length arm64_syscalls \<le> 255"
  by (simp add: arm64_syscalls_def)

lemma layout_traps:
  "layout l64 l32 a64 a32 ! (5 + length a64 + 2 * length l64) =
     BPF_STMT (BPF_RET OR BPF_K) SECCOMP_RET_TRAP"
  "last (layout l64 l32 a64 a32) = BPF_STMT (BPF_RET OR BPF_K) SECCOMP_RET_TRAP"
proof -
  have "layout l64 l32 a64 a32 =
        (dispatcher (of_nat (3 + length a64 + 2 * length l64)) @
         BPF_STMT (BPF_LD OR BPF_W OR BPF_ABS) syscall_nr # a64 @ allow_pairs l64) @
        BPF_STMT (BPF_RET OR BPF_K) SECCOMP_RET_TRAP # section_code l32 a32"
    (is "_ = ?pre @ _")
    by (simp add: layout_def section_code_def)
  moreover have "length ?pre = 5 + length a64 + 2 * length l64"
    by (simp add: dispatcher_def length_allow_pairs)
  ultimately show "layout l64 l32 a64 a32 ! (5 + length a64 + 2 * length l64) =
     BPF_STMT (BPF_RET OR BPF_K) SECCOMP_RET_TRAP"
    by (metis nth_append_length)
  show "last (layout l64 l32 a64 a32) = BPF_STMT (BPF_RET OR BPF_K) SECCOMP_RET_TRAP"
    by (simp add: layout_def section_code_def)
qed

lemma layout_nth:
  "layout l64 l32 a64 a32 ! 3 = BPF_STMT (BPF_RET OR BPF_K) SECCOMP_RET_TRAP"
  "layout l64 l32 a64 a32 ! 4 = BPF_STMT (BPF_LD OR BPF_W OR BPF_ABS) syscall_nr"
  by (simp_all add: layout_def dispatcher_def section_code_def numeral_3_eq_3 eval_nat_numeral)

lemma length_section_code: "length (section_code l a) = 2 + length a + 2 * length l"
  by (simp add: section_code_def length_allow_pairs)

lemma layout_section32:
  "layout l64 l32 a64 a32 ! (6 + length a64 + 2 * length l64) =
     BPF_STMT (BPF_LD OR BPF_W OR BPF_ABS) syscall_nr"
proof -
  have "layout l64 l32 a64 a32 =
        (dispatcher (of_nat (3 + length a64 + 2 * length l64)) @ section_code l64 a64) @
        BPF_STMT (BPF_LD OR BPF_W OR BPF_ABS) syscall_nr #
        (a32 @ allow_pairs l32 @ [BPF_STMT (BPF_RET OR BPF_K) SECCOMP_RET_TRAP])"
    (is "_ = ?pre @ _")
    by (simp add: layout_def section_code_def)
  moreover have "length ?pre = 6 + length a64 + 2 * length l64"
    by (simp add: dispatcher_def length_section_code)
  ultimately show ?thesis
    by (metis nth_append_length)
qed

lemma visited_layout_other:
  assumes "arch d \<noteq> AUDIT_ARCH_AARCH64" "arch d \<noteq> AUDIT_ARCH_ARM"
  shows "visited (layout l64 l32 a64 a32) d 0 s = [0, 1, 2, 3]"
  using assms by (simp add: layout_def visited_dispatcher)



lemma allow_pairs_append: "allow_pairs (xs @ ys) = allow_pairs xs @ allow_pairs ys"
  by (simp add: allow_pairs_def)

lemma layout_without_duplicate:
  "layout arm64_syscalls_once l32 a64 a32 =
     (take (29 + length a64) (layout arm64_syscalls l32 a64 a32) @
      drop (31 + length a64) (layout arm64_syscalls l32 a64 a32))
       [2 := BPF_JUMP (BPF_JMP OR BPF_JEQ OR BPF_K) AUDIT_ARCH_ARM (of_nat (29 + length a64)) 0]"
  "layout arm64_syscalls l32 a64 a32 ! (29 + length a64) =
         BPF_JUMP (BPF_JMP OR BPF_JEQ OR BPF_K) 128 0 1"
  "layout arm64_syscalls l32 a64 a32 ! (30 + length a64) =
         BPF_STMT (BPF_RET OR BPF_K) SECCOMP_RET_ALLOW"
proof -
  let ?a = "[41, 31, 30, 178, 98, 220, 139, 240, 128, 278, 241, 130] :: u32 list"
  let ?pre = "\<lambda>j. dispatcher j @ BPF_STMT (BPF_LD OR BPF_W OR BPF_ABS) syscall_nr # a64 @ allow_pairs ?a"
  let ?post = "allow_pairs [267] @ BPF_STMT (BPF_RET OR BPF_K) SECCOMP_RET_TRAP # section_code l32 a32"
  let ?dup = "[BPF_JUMP (BPF_JMP OR BPF_JEQ OR BPF_K) 128 0 1,
               BPF_STMT (BPF_RET OR BPF_K) SECCOMP_RET_ALLOW]"
  have l: "length (?pre j) = 29 + length a64" for j
    by (simp add: dispatcher_def length_allow_pairs)
  have a: "arm64_syscalls = ?a @ [128] @ [267]" and o: "arm64_syscalls_once = ?a @ [267]"
    by (simp_all add: arm64_syscalls_def arm64_syscalls_once_def)
  have f: "layout arm64_syscalls l32 a64 a32 = ?pre (of_nat (31 + length a64)) @ ?dup @ ?post"
    unfolding layout_def section_code_def a allow_pairs_append
    by (simp add: allow_pairs_def)
  have g: "layout arm64_syscalls_once l32 a64 a32 = ?pre (of_nat (29 + length a64)) @ ?post"
    unfolding layout_def section_code_def o allow_pairs_append
    by (simp add: allow_pairs_def)
  have t: "take (29 + length a64) (layout arm64_syscalls l32 a64 a32) = ?pre (of_nat (31 + length a64))"
    unfolding f using l [of "of_nat (31 + length a64)"] by (metis append_eq_conv_conj)
  have "drop (29 + length a64) (layout arm64_syscalls l32 a64 a32) = ?dup @ ?post"
    unfolding f using l [of "of_nat (31 + length a64)"] by (metis append_eq_conv_conj)
  then have "drop 2 (drop (29 + length a64) (layout arm64_syscalls l32 a64 a32)) = ?post"
    by simp
  then have d: "drop (31 + length a64) (layout arm64_syscalls l32 a64 a32) = ?post"
    by (simp add: add.commute)
  have u: "(?pre j @ ?post)[2 := BPF_JUMP (BPF_JMP OR BPF_JEQ OR BPF_K) AUDIT_ARCH_ARM j' 0]
           = ?pre j' @ ?post" for j j'
    by (simp add: dispatcher_def numeral_2_eq_2)
  show "layout arm64_syscalls_once l32 a64 a32 =
     (take (29 + length a64) (layout arm64_syscalls l32 a64 a32) @
      drop (31 + length a64) (layout arm64_syscalls l32 a64 a32))
       [2 := BPF_JUMP (BPF_JMP OR BPF_JEQ OR BPF_K) AUDIT_ARCH_ARM (of_nat (29 + length a64)) 0]"
    unfolding t d u g ..
  show "layout arm64_syscalls l32 a64 a32 ! (29 + length a64) =
         BPF_JUMP (BPF_JMP OR BPF_JEQ OR BPF_K) 128 0 1"
    unfolding f using l [of "of_nat (31 + length a64)"] by (metis append_Cons nth_append_length)
  have "(?pre j @ [BPF_JUMP (BPF_JMP OR BPF_JEQ OR BPF_K) 128 0 1]) @
          BPF_STMT (BPF_RET OR BPF_K) SECCOMP_RET_ALLOW # ?post = ?pre j @ ?dup @ ?post" for j
    by simp
  moreover have "length (?pre j @ [BPF_JUMP (BPF_JMP OR BPF_JEQ OR BPF_K) 128 0 1]) = 30 + length a64" for j
    using l [of j] by simp
  ultimately show "layout arm64_syscalls l32 a64 a32 ! (30 + length a64) =
         BPF_STMT (BPF_RET OR BPF_K) SECCOMP_RET_ALLOW"
    unfolding f by (metis nth_append_length)
qed

subsection \<open>Concrete runs\<close>

lemma exec_jge:
  "exec_insn d (BPF_JUMP (BPF_JMP OR BPF_JGE OR BPF_K) v t f) s =
     Next (unat (if v \<le> A s then t else f)) s"
  by (simp add: exec_insn_def bpf_defs jmp_cond_def Let_def)

lemma run_example_baseline:
  "run_baseline example_baseline (example_call a n) =
     (if 200 \<le> n then Exit 2 (init_state\<lparr>A := n\<rparr>) else Returned SECCOMP_RET_ALLOW)"
proof -
  have e: "run_from [] d 0 s = Exit 0 s" for d s
    by (simp add: run_from.simps [of "[]"])
  have e1: "run_from [] d 1 s = Exit 1 s" for d s
    by (simp add: run_from.simps [of "[]"])
  show ?thesis
    by (simp add: run_baseline_def example_baseline_def example_call_def run_from_Cons
        exec_jge exec_ret e e1 run_from_Suc [of _ _ _ 0, simplified])
qed

lemma example_simps:
  "length example_baseline = 2" "nr (example_call a n) = n" "arch (example_call a n) = a"
  by (simp_all add: example_baseline_def example_call_def)

lemma run_empty_baseline:
  "run_baseline [] d = Exit 0 (init_state\<lparr>A := nr d\<rparr>)"
  by (simp add: run_baseline_def run_from.simps [of "[]"])

section \<open>The claims\<close>

subsection \<open>C1: failure of the build-and-install sequence\<close>

text \<open>Claim C1 says that on every failure of the build-and-install sequence, the patching of
  the jump offset included, \<open>Seccomp_setPolicy\<close> ends the process with a non-zero status. The
  code does not do so when the patch fails: with a 64-bit baseline table of more than 224
  instructions the jump length exceeds 255, \<open>set_seccomp_filter\<close> executes \<^verbatim>\<open>return -1\<close>, which
  is \<^verbatim>\<open>true\<close> as a \<^verbatim>\<open>bool\<close>, and \<open>Seccomp_setPolicy\<close> returns to its caller: the process
  continues, and no program has been handed to the kernel.\<close>
theorem Seccomp_setPolicy_patch_failure_continues:
  assumes "224 < length arm64_filter" "length arm64_filter < 2 ^ 31"
  shows "Seccomp_setPolicy prctl arm64_filter arm_filter = Some (Continues, [])"
  by (simp add: Seccomp_setPolicy_def set_seccomp_filter_patch_failure [OF assms])

theorem Seccomp_setPolicy_patch_failure_continues_witness:
  "224 < length (replicate 225 (BPF_STMT (BPF_RET OR BPF_K) SECCOMP_RET_ALLOW)) \<and>
   Seccomp_setPolicy (\<lambda>_. - 1) (replicate 225 (BPF_STMT (BPF_RET OR BPF_K) SECCOMP_RET_ALLOW)) []
     = Some (Continues, [])"
  using Seccomp_setPolicy_patch_failure_continues
          [of "replicate 225 (BPF_STMT (BPF_RET OR BPF_K) SECCOMP_RET_ALLOW)" "\<lambda>_. - 1" "[]"]
  by simp

subsection \<open>C2: patching the jump of the dispatcher\<close>

text \<open>Claim C2: for every program \<open>f\<close> and index \<open>i < length f\<close>,
  \<open>SetValidateArchitectureJumpTarget\<close> computes the distance \<open>length f - i - 1\<close>; it fails
  (result \<open>-1\<close>, vector unchanged) exactly when the distance exceeds 255; on success it
  overwrites the instruction at \<open>i\<close> with a compare-equal against the 32-bit architecture
  constant whose true branch skips exactly that many instructions, so that control lands on
  index \<open>length f\<close>, the first instruction appended after the patch. On failure
  \<open>set_seccomp_filter\<close> returns without any call of the kernel. The length of a vector is
  below \<open>2 ^ 64\<close>.\<close>
theorem SetValidateArchitectureJumpTarget_patch:
  assumes "i < length f" "length f < 2 ^ 64"
  shows "(SetValidateArchitectureJumpTarget (of_nat i) f =
           (if 255 < length f - i - 1 then Some (- 1, f)
            else Some (0, f[i := BPF_JUMP (BPF_JMP OR BPF_JEQ OR BPF_K) AUDIT_ARCH_ARM
                                   (of_nat (length f - i - 1)) 0])))
       \<and> (length f - i - 1 \<le> 255 \<longrightarrow>
           (\<exists>f'. SetValidateArchitectureJumpTarget (of_nat i) f = Some (0, f')
              \<and> length f' = length f
              \<and> unat (jt (f' ! i)) = length f - i - 1
              \<and> i + 1 + (length f - i - 1) = length f
              \<and> (A s = AUDIT_ARCH_ARM \<longrightarrow>
                    exec_insn d (f' ! i) s = Next (length f - i - 1) s
                  \<and> run_from (f' @ g) d i s = run_from (f' @ g) d (length f) s)))
       \<and> set_seccomp_filter prctl arm64_filter arm_filter =
           (case SetValidateArchitectureJumpTarget 2 (prepatch arm64_syscalls arm64_filter) of
              None \<Rightarrow> None
            | Some (r, f') \<Rightarrow>
                if r \<noteq> 0 then Some (True, [])
                else Some (install_filter prctl (f' @ section_code arm_syscalls arm_filter)))"
proof (intro conjI impI)
  let ?n = "length f - i - 1"
  let ?p = "BPF_JUMP (BPF_JMP OR BPF_JEQ OR BPF_K) AUDIT_ARCH_ARM (of_nat ?n) 0"
  show eq: "SetValidateArchitectureJumpTarget (of_nat i) f =
           (if 255 < ?n then Some (- 1, f) else Some (0, f[i := ?p]))"
    using assms by (rule SetValidate_nat)
  show "\<exists>f'. SetValidateArchitectureJumpTarget (of_nat i) f = Some (0, f')
              \<and> length f' = length f
              \<and> unat (jt (f' ! i)) = ?n
              \<and> i + 1 + ?n = length f
              \<and> (A s = AUDIT_ARCH_ARM \<longrightarrow>
                    exec_insn d (f' ! i) s = Next ?n s
                  \<and> run_from (f' @ g) d i s = run_from (f' @ g) d (length f) s)"
    if le: "?n \<le> 255"
  proof (intro exI conjI impI)
    show "SetValidateArchitectureJumpTarget (of_nat i) f = Some (0, f[i := ?p])"
      using le eq by simp
    show "length (f[i := ?p]) = length f" by simp
    show "i + 1 + ?n = length f" using assms(1) by simp
    show "unat (jt (f[i := ?p] ! i)) = ?n"
      using assms(1) le by (rule patched_jump_lands(1))
    show "exec_insn d (f[i := ?p] ! i) s = Next ?n s" if "A s = AUDIT_ARCH_ARM"
      using assms(1) le that by (rule patched_jump_lands(2))
    show "run_from (f[i := ?p] @ g) d i s = run_from (f[i := ?p] @ g) d (length f) s"
      if "A s = AUDIT_ARCH_ARM"
      using assms(1) le that by (rule patched_jump_lands(3))
  qed
  show "set_seccomp_filter prctl arm64_filter arm_filter =
           (case SetValidateArchitectureJumpTarget 2 (prepatch arm64_syscalls arm64_filter) of
              None \<Rightarrow> None
            | Some (r, f') \<Rightarrow>
                if r \<noteq> 0 then Some (True, [])
                else Some (install_filter prctl (f' @ section_code arm_syscalls arm_filter)))"
    by (simp add: set_seccomp_filter_def set_seccomp_filter_with_unfold int_to_bool_def
        split: option.split)
qed

theorem SetValidateArchitectureJumpTarget_patch_witness:
  "SetValidateArchitectureJumpTarget 2 (replicate 258 (BPF_STMT (BPF_RET OR BPF_K) SECCOMP_RET_TRAP)) =
     Some (0, (replicate 258 (BPF_STMT (BPF_RET OR BPF_K) SECCOMP_RET_TRAP))
                [2 := BPF_JUMP (BPF_JMP OR BPF_JEQ OR BPF_K) AUDIT_ARCH_ARM 255 0])
   \<and> SetValidateArchitectureJumpTarget 2 (replicate 259 (BPF_STMT (BPF_RET OR BPF_K) SECCOMP_RET_TRAP)) =
     Some (- 1, replicate 259 (BPF_STMT (BPF_RET OR BPF_K) SECCOMP_RET_TRAP))"
  using SetValidateArchitectureJumpTarget_patch
          [of 2 "replicate 258 (BPF_STMT (BPF_RET OR BPF_K) SECCOMP_RET_TRAP)"]
        SetValidateArchitectureJumpTarget_patch
          [of 2 "replicate 259 (BPF_STMT (BPF_RET OR BPF_K) SECCOMP_RET_TRAP)"]
  by simp

subsection \<open>C3: the architecture dispatcher\<close>

text \<open>Claim C3 describes the dispatcher as a load, a compare against the 64-bit constant, a
  compare against the 32-bit constant with true-skip 1, then a separate placeholder jump, then
  a Trap, and says that the index of that placeholder jump is returned. The code emits four
  instructions: on the empty vector the instruction after the 32-bit compare (index 3) is the
  Trap return and not a jump, the vector has four instructions and not five, and the returned
  index is 2 and not 3.\<close>
theorem dispatcher_placeholder_counterexample:
  "\<not> (snd (ValidateArchitectureAndJumpIfNeeded []) ! 2 =
          BPF_JUMP (BPF_JMP OR BPF_JEQ OR BPF_K) AUDIT_ARCH_ARM 1 0
      \<and> code (snd (ValidateArchitectureAndJumpIfNeeded []) ! 3) AND 0x07 = BPF_JMP
      \<and> length (snd (ValidateArchitectureAndJumpIfNeeded [])) = 5
      \<and> fst (ValidateArchitectureAndJumpIfNeeded []) = 3)"
  by (simp add: ValidateArchitectureAndJumpIfNeeded_eq dispatcher_def bpf_defs)

text \<open>Claim C3 as amended: \<open>ValidateArchitectureAndJumpIfNeeded\<close> appends exactly four
  instructions, in order: the load of the architecture field, a compare-equal against the
  64-bit constant with true-skip 2 (from index \<open>length f + 1\<close> control then continues at index
  \<open>length f + 4\<close>, the first instruction appended after the dispatcher, which in
  \<open>set_seccomp_filter\<close> is the load of the system call number of the 64-bit section), a
  compare-equal against the 32-bit constant with true-skip 1 and false-skip 0, and a Trap. The
  32-bit compare is itself the placeholder: the returned index \<open>length f + 2\<close> is its index,
  and a successful \<open>SetValidateArchitectureJumpTarget\<close> with that index overwrites exactly
  this instruction.\<close>
theorem ValidateArchitectureAndJumpIfNeeded_emits:
  "snd (ValidateArchitectureAndJumpIfNeeded f) =
     f @ [BPF_STMT (BPF_LD OR BPF_W OR BPF_ABS) arch_nr,
          BPF_JUMP (BPF_JMP OR BPF_JEQ OR BPF_K) AUDIT_ARCH_AARCH64 2 0,
          BPF_JUMP (BPF_JMP OR BPF_JEQ OR BPF_K) AUDIT_ARCH_ARM 1 0,
          BPF_STMT (BPF_RET OR BPF_K) SECCOMP_RET_TRAP]
   \<and> fst (ValidateArchitectureAndJumpIfNeeded f) = of_nat (length f + 2)
   \<and> (length f + 2 < 2 ^ 64 \<longrightarrow>
        snd (ValidateArchitectureAndJumpIfNeeded f) ! unat (fst (ValidateArchitectureAndJumpIfNeeded f)) =
          BPF_JUMP (BPF_JMP OR BPF_JEQ OR BPF_K) AUDIT_ARCH_ARM 1 0)
   \<and> (A s = AUDIT_ARCH_AARCH64 \<longrightarrow>
        run_from (snd (ValidateArchitectureAndJumpIfNeeded f) @ g) d (length f + 1) s =
        run_from (snd (ValidateArchitectureAndJumpIfNeeded f) @ g) d (length f + 4) s)
   \<and> (\<forall>h h'. SetValidateArchitectureJumpTarget (fst (ValidateArchitectureAndJumpIfNeeded f)) h = Some (0, h')
          \<longrightarrow> length f + 2 < length h \<longrightarrow> length h < 2 ^ 64 \<longrightarrow>
            h' = h[length f + 2 := BPF_JUMP (BPF_JMP OR BPF_JEQ OR BPF_K) AUDIT_ARCH_ARM
                                     (of_nat (length h - length f - 3)) 0])"
proof (intro conjI impI allI)
  let ?r = "ValidateArchitectureAndJumpIfNeeded f"
  show s: "snd ?r =
     f @ [BPF_STMT (BPF_LD OR BPF_W OR BPF_ABS) arch_nr,
          BPF_JUMP (BPF_JMP OR BPF_JEQ OR BPF_K) AUDIT_ARCH_AARCH64 2 0,
          BPF_JUMP (BPF_JMP OR BPF_JEQ OR BPF_K) AUDIT_ARCH_ARM 1 0,
          BPF_STMT (BPF_RET OR BPF_K) SECCOMP_RET_TRAP]"
    by (simp add: ValidateArchitectureAndJumpIfNeeded_eq dispatcher_def)
  show i: "fst ?r = of_nat (length f + 2)"
    by (simp add: ValidateArchitectureAndJumpIfNeeded_eq)
  show "snd ?r ! unat (fst ?r) = BPF_JUMP (BPF_JMP OR BPF_JEQ OR BPF_K) AUDIT_ARCH_ARM 1 0"
    if "length f + 2 < 2 ^ 64"
  proof -
    have "unat (of_nat (length f + 2) :: size_t) = (length f + 2) mod 2 ^ LENGTH(64)"
      by (rule unat_of_nat)
    also have "\<dots> = length f + 2"
      using that by simp
    finally have "unat (of_nat (length f + 2) :: size_t) = length f + 2" .
    then show ?thesis by (simp only: i s) (simp add: nth_append)
  qed
  show "run_from (snd ?r @ g) d (length f + 1) s = run_from (snd ?r @ g) d (length f + 4) s"
    if a: "A s = AUDIT_ARCH_AARCH64"
  proof -
    have lt: "length f + 1 < length (snd ?r @ g)" by (simp add: s)
    have nth: "(snd ?r @ g) ! (length f + 1) =
               BPF_JUMP (BPF_JMP OR BPF_JEQ OR BPF_K) AUDIT_ARCH_AARCH64 2 0"
      by (simp add: s nth_append)
    have ex: "exec_insn d ((snd ?r @ g) ! (length f + 1)) s = Next 2 s"
      unfolding nth using a by (simp add: exec_jeq)
    have "run_from (snd ?r @ g) d (length f + 1) s =
          (case exec_insn d ((snd ?r @ g) ! (length f + 1)) s of
             Next n s' \<Rightarrow> run_from (snd ?r @ g) d (length f + 1 + 1 + n) s'
           | Ret v \<Rightarrow> Returned v
           | Bad \<Rightarrow> Invalid)"
      using lt by (subst run_from.simps) simp
    also have "\<dots> = run_from (snd ?r @ g) d (length f + 1 + 1 + 2) s"
      by (simp only: ex step.case)
    also have "length f + 1 + 1 + 2 = length f + 4" by simp
    finally show ?thesis .
  qed
  show "h' = h[length f + 2 := BPF_JUMP (BPF_JMP OR BPF_JEQ OR BPF_K) AUDIT_ARCH_ARM
                                     (of_nat (length h - length f - 3)) 0]"
    if p: "SetValidateArchitectureJumpTarget (fst ?r) h = Some (0, h')"
      and lt: "length f + 2 < length h" and bd: "length h < 2 ^ 64" for h h'
  proof -
    have "length h - (length f + 2) - 1 = length h - length f - 3" by simp
    then show ?thesis
      using p SetValidate_nat [OF lt bd]
      by (simp add: i split: if_splits)
  qed
qed

theorem ValidateArchitectureAndJumpIfNeeded_emits_witness:
  "ValidateArchitectureAndJumpIfNeeded [] =
     (2, [BPF_STMT (BPF_LD OR BPF_W OR BPF_ABS) arch_nr,
          BPF_JUMP (BPF_JMP OR BPF_JEQ OR BPF_K) AUDIT_ARCH_AARCH64 2 0,
          BPF_JUMP (BPF_JMP OR BPF_JEQ OR BPF_K) AUDIT_ARCH_ARM 1 0,
          BPF_STMT (BPF_RET OR BPF_K) SECCOMP_RET_TRAP])
   \<and> snd (ValidateArchitectureAndJumpIfNeeded []) ! unat (fst (ValidateArchitectureAndJumpIfNeeded [])) =
          BPF_JUMP (BPF_JMP OR BPF_JEQ OR BPF_K) AUDIT_ARCH_ARM 1 0"
  using ValidateArchitectureAndJumpIfNeeded_emits [of "[]"]
  by (simp add: prod_eq_iff)

subsection \<open>C4: default deny\<close>

text \<open>Claim C4: a system call number that is neither in the explicit allow list of its
  architecture nor allowed by the baseline fragment of that architecture gets Trap from the
  assembled and patched program, never Allow. The final instruction of each section (index
  \<open>33 + length arm64_filter\<close> for the 64-bit section, the last index for the 32-bit section)
  is a Trap return, which every failed compare of the allow entries falls through to. The
  baseline fragment is opaque: it either allows the call by itself or passes it on, that is,
  control leaves the fragment at its end with the number still in the accumulator. The 64-bit
  fragment has at most 224 instructions, so that the patch succeeds and a program is
  assembled at all.\<close>
theorem default_deny:
  assumes "length arm64_filter \<le> 224"
  shows "\<exists>f. assembled_program arm64_filter arm_filter = Some f
     \<and> f ! (33 + length arm64_filter) = BPF_STMT (BPF_RET OR BPF_K) SECCOMP_RET_TRAP
     \<and> last f = BPF_STMT (BPF_RET OR BPF_K) SECCOMP_RET_TRAP
     \<and> (arch d = AUDIT_ARCH_AARCH64 \<longrightarrow> nr d \<notin> set arm64_syscalls \<longrightarrow>
          \<not> baseline_allows arm64_filter d \<longrightarrow>
          baseline_allows arm64_filter d \<or> falls_through arm64_filter d \<longrightarrow>
          seccomp_run f d = Some SECCOMP_RET_TRAP)
     \<and> (arch d = AUDIT_ARCH_ARM \<longrightarrow> nr d \<notin> set arm_syscalls \<longrightarrow>
          \<not> baseline_allows arm_filter d \<longrightarrow>
          baseline_allows arm_filter d \<or> falls_through arm_filter d \<longrightarrow>
          seccomp_run f d = Some SECCOMP_RET_TRAP)"
proof (intro exI conjI impI)
  note b = patch_bound [OF assms]
  show "assembled_program arm64_filter arm_filter =
          Some (layout arm64_syscalls arm_syscalls arm64_filter arm_filter)"
    using assms by (rule assembled_program_ok)
  have "33 + length arm64_filter = 5 + length arm64_filter + 2 * length arm64_syscalls"
    by (simp add: arm64_syscalls_def)
  then show "layout arm64_syscalls arm_syscalls arm64_filter arm_filter ! (33 + length arm64_filter)
        = BPF_STMT (BPF_RET OR BPF_K) SECCOMP_RET_TRAP"
    by (simp only: layout_traps(1))
  show "last (layout arm64_syscalls arm_syscalls arm64_filter arm_filter)
        = BPF_STMT (BPF_RET OR BPF_K) SECCOMP_RET_TRAP"
    by (rule layout_traps(2))
  show "seccomp_run (layout arm64_syscalls arm_syscalls arm64_filter arm_filter) d =
          Some SECCOMP_RET_TRAP"
    if "arch d = AUDIT_ARCH_AARCH64" "nr d \<notin> set arm64_syscalls"
       "\<not> baseline_allows arm64_filter d"
       "baseline_allows arm64_filter d \<or> falls_through arm64_filter d"
  proof -
    from that(3,4) have "falls_through arm64_filter d" by blast
    with b that(1) have "seccomp_run (layout arm64_syscalls arm_syscalls arm64_filter arm_filter) d =
      Some (if nr d \<in> set arm64_syscalls then SECCOMP_RET_ALLOW else SECCOMP_RET_TRAP)"
      by (rule run_layout_arm64)
    with that(2) show ?thesis by simp
  qed
  show "seccomp_run (layout arm64_syscalls arm_syscalls arm64_filter arm_filter) d =
          Some SECCOMP_RET_TRAP"
    if "arch d = AUDIT_ARCH_ARM" "nr d \<notin> set arm_syscalls"
       "\<not> baseline_allows arm_filter d"
       "baseline_allows arm_filter d \<or> falls_through arm_filter d"
  proof -
    from that(3,4) have "falls_through arm_filter d" by blast
    with b that(1) have "seccomp_run (layout arm64_syscalls arm_syscalls arm64_filter arm_filter) d =
      Some (if nr d \<in> set arm_syscalls then SECCOMP_RET_ALLOW else SECCOMP_RET_TRAP)"
      by (rule run_layout_arm)
    with that(2) show ?thesis by simp
  qed
qed

theorem default_deny_witness:
  "\<exists>f. assembled_program example_baseline [] = Some f
     \<and> seccomp_run f (example_call AUDIT_ARCH_AARCH64 250) = Some SECCOMP_RET_TRAP
     \<and> seccomp_run f (example_call AUDIT_ARCH_ARM 98) = Some SECCOMP_RET_TRAP"
proof -
  have a: "\<not> baseline_allows example_baseline (example_call AUDIT_ARCH_AARCH64 250)"
    by (simp add: baseline_allows_def run_example_baseline)
  have b: "falls_through example_baseline (example_call AUDIT_ARCH_AARCH64 250)"
    by (simp add: falls_through_def run_example_baseline example_simps)
  have c: "\<not> baseline_allows [] (example_call AUDIT_ARCH_ARM 98)"
    by (simp add: baseline_allows_def run_empty_baseline)
  have d: "falls_through [] (example_call AUDIT_ARCH_ARM 98)"
    by (simp add: falls_through_def run_empty_baseline example_simps)
  have l: "length example_baseline \<le> 224" by (simp add: example_simps)
  have n: "nr (example_call AUDIT_ARCH_AARCH64 250) \<notin> set arm64_syscalls"
    by (simp add: example_simps arm64_syscalls_def)
  have m: "nr (example_call AUDIT_ARCH_ARM 98) \<notin> set arm_syscalls"
    by (simp add: example_simps arm_syscalls_def)
  note x = example_simps(3)
  show ?thesis
    using default_deny [OF l, of "[]" "example_call AUDIT_ARCH_AARCH64 250"]
          default_deny [OF l, of "[]" "example_call AUDIT_ARCH_ARM 98"]
          a b c d n m x arch_consts_differ
    by auto
qed

subsection \<open>C5: the explicit allow entries\<close>

text \<open>Claim C5: for every number in the explicit allow list of an architecture, the assembled
  and patched program returns Allow on an input with that architecture and that number,
  provided the baseline fragment does not end the evaluation for the call but passes it on
  to the allow entries (control leaves the fragment at its end with the number still in the
  accumulator).\<close>
theorem allow_entries_allow:
  assumes "length arm64_filter \<le> 224"
  shows "\<exists>f. assembled_program arm64_filter arm_filter = Some f
     \<and> (arch d = AUDIT_ARCH_AARCH64 \<longrightarrow> nr d \<in> set arm64_syscalls \<longrightarrow>
          falls_through arm64_filter d \<longrightarrow> seccomp_run f d = Some SECCOMP_RET_ALLOW)
     \<and> (arch d = AUDIT_ARCH_ARM \<longrightarrow> nr d \<in> set arm_syscalls \<longrightarrow>
          falls_through arm_filter d \<longrightarrow> seccomp_run f d = Some SECCOMP_RET_ALLOW)"
proof (intro exI conjI impI)
  note b = patch_bound [OF assms]
  show "assembled_program arm64_filter arm_filter =
          Some (layout arm64_syscalls arm_syscalls arm64_filter arm_filter)"
    using assms by (rule assembled_program_ok)
  show "seccomp_run (layout arm64_syscalls arm_syscalls arm64_filter arm_filter) d =
          Some SECCOMP_RET_ALLOW"
    if "arch d = AUDIT_ARCH_AARCH64" "nr d \<in> set arm64_syscalls" "falls_through arm64_filter d"
    using run_layout_arm64 [OF b that(1,3)] that(2) by simp
  show "seccomp_run (layout arm64_syscalls arm_syscalls arm64_filter arm_filter) d =
          Some SECCOMP_RET_ALLOW"
    if "arch d = AUDIT_ARCH_ARM" "nr d \<in> set arm_syscalls" "falls_through arm_filter d"
    using run_layout_arm [OF b that(1,3)] that(2) by simp
qed

theorem allow_entries_allow_witness:
  "\<exists>f. assembled_program example_baseline [] = Some f
     \<and> seccomp_run f (example_call AUDIT_ARCH_AARCH64 220) = Some SECCOMP_RET_ALLOW
     \<and> seccomp_run f (example_call AUDIT_ARCH_ARM 120) = Some SECCOMP_RET_ALLOW"
proof -
  have b: "falls_through example_baseline (example_call AUDIT_ARCH_AARCH64 220)"
    by (simp add: falls_through_def run_example_baseline example_simps)
  have d: "falls_through [] (example_call AUDIT_ARCH_ARM 120)"
    by (simp add: falls_through_def run_empty_baseline example_simps)
  have l: "length example_baseline \<le> 224" by (simp add: example_simps)
  have n: "nr (example_call AUDIT_ARCH_AARCH64 220) \<in> set arm64_syscalls"
    by (simp add: example_simps arm64_syscalls_def)
  have m: "nr (example_call AUDIT_ARCH_ARM 120) \<in> set arm_syscalls"
    by (simp add: example_simps arm_syscalls_def)
  show ?thesis
    using allow_entries_allow [OF l, of "[]" "example_call AUDIT_ARCH_AARCH64 220"]
          allow_entries_allow [OF l, of "[]" "example_call AUDIT_ARCH_ARM 120"]
          b d n m example_simps(3)
    by auto
qed

subsection \<open>C6: isolation of the architectures\<close>



subsection \<open>C7: an unknown architecture\<close>

text \<open>Claim C7: on an input whose architecture field is neither the 64-bit nor the 32-bit
  constant the assembled and patched program returns Trap, and the run visits exactly the
  instructions 0, 1, 2 and 3 of the dispatcher: it enters neither the 64-bit section, which
  begins at index 4, nor the 32-bit section, which begins at index
  \<open>34 + length arm64_filter\<close>.\<close>
theorem unknown_architecture_traps:
  assumes "length arm64_filter \<le> 224"
    and "arch d \<noteq> AUDIT_ARCH_AARCH64" and "arch d \<noteq> AUDIT_ARCH_ARM"
  shows "\<exists>f. assembled_program arm64_filter arm_filter = Some f
     \<and> seccomp_run f d = Some SECCOMP_RET_TRAP
     \<and> visited f d 0 init_state = [0, 1, 2, 3]
     \<and> f ! 3 = BPF_STMT (BPF_RET OR BPF_K) SECCOMP_RET_TRAP
     \<and> f ! 4 = BPF_STMT (BPF_LD OR BPF_W OR BPF_ABS) syscall_nr
     \<and> f ! (34 + length arm64_filter) = BPF_STMT (BPF_LD OR BPF_W OR BPF_ABS) syscall_nr"
proof (intro exI conjI)
  let ?f = "layout arm64_syscalls arm_syscalls arm64_filter arm_filter"
  show "assembled_program arm64_filter arm_filter = Some ?f"
    using assms(1) by (rule assembled_program_ok)
  show "seccomp_run ?f d = Some SECCOMP_RET_TRAP"
    using assms(2,3) by (simp add: run_layout [OF patch_bound [OF assms(1)]])
  show "visited ?f d 0 init_state = [0, 1, 2, 3]"
    using assms(2,3) by (rule visited_layout_other)
  show "?f ! 3 = BPF_STMT (BPF_RET OR BPF_K) SECCOMP_RET_TRAP"
    by (rule layout_nth(1))
  show "?f ! 4 = BPF_STMT (BPF_LD OR BPF_W OR BPF_ABS) syscall_nr"
    by (rule layout_nth(2))
  have "34 + length arm64_filter = 6 + length arm64_filter + 2 * length arm64_syscalls"
    by (simp add: arm64_syscalls_def)
  then show "?f ! (34 + length arm64_filter) = BPF_STMT (BPF_LD OR BPF_W OR BPF_ABS) syscall_nr"
    by (simp only: layout_section32)
qed

theorem unknown_architecture_traps_witness:
  "\<exists>f. assembled_program example_baseline example_baseline = Some f
     \<and> seccomp_run f (example_call 0 98) = Some SECCOMP_RET_TRAP
     \<and> visited f (example_call 0 98) 0 init_state = [0, 1, 2, 3]"
proof -
  have l: "length example_baseline \<le> 224" by (simp add: example_simps)
  have a: "arch (example_call 0 98) \<noteq> AUDIT_ARCH_AARCH64"
    and b: "arch (example_call 0 98) \<noteq> AUDIT_ARCH_ARM"
    by (simp_all add: example_simps bpf_defs)
  show ?thesis
    using unknown_architecture_traps [OF l a b, of example_baseline] by auto
qed

subsection \<open>C8: one allow entry\<close>

text \<open>Claim C8: for every program \<open>f\<close> and number \<open>n\<close>, \<open>AllowSyscall f n\<close> appends exactly
  two instructions and changes nothing else: at index \<open>length f\<close> a compare-equal against \<open>n\<close>
  with true-skip 0 and false-skip 1, and right after it an Allow return. When the accumulator
  differs from \<open>n\<close>, control continues at index \<open>length f + 2\<close>, the first instruction appended
  after the pair; when it equals \<open>n\<close>, the program returns Allow.\<close>
theorem AllowSyscall_appends_pair:
  "AllowSyscall f n =
     f @ [BPF_JUMP (BPF_JMP OR BPF_JEQ OR BPF_K) n 0 1,
          BPF_STMT (BPF_RET OR BPF_K) SECCOMP_RET_ALLOW]
   \<and> jt (AllowSyscall f n ! length f) = 0
   \<and> jf (AllowSyscall f n ! length f) = 1
   \<and> exec_insn d (AllowSyscall f n ! length f) s = Next (if A s = n then 0 else 1) s
   \<and> exec_insn d (AllowSyscall f n ! (length f + 1)) s = Ret SECCOMP_RET_ALLOW
   \<and> run_from (AllowSyscall f n @ rest) d (length f) s =
       (if A s = n then Returned SECCOMP_RET_ALLOW
        else run_from (AllowSyscall f n @ rest) d (length f + 2) s)"
proof -
  let ?c = "BPF_JUMP (BPF_JMP OR BPF_JEQ OR BPF_K) n 0 1"
  let ?a = "BPF_STMT (BPF_RET OR BPF_K) SECCOMP_RET_ALLOW"
  have eq: "AllowSyscall f n = f @ [?c, ?a]"
    by (simp add: AllowSyscall_def Allow_def push_back_def)
  have n0: "AllowSyscall f n ! length f = ?c" and n1: "AllowSyscall f n ! (length f + 1) = ?a"
    by (simp_all add: eq nth_append)
  have t: "jt ?c = 0" and f: "jf ?c = 1"
    by (simp_all add: BPF_JUMP_def)
  have c: "exec_insn d ?c s = Next (if A s = n then 0 else 1) s"
    by (simp add: exec_jeq)
  have a: "exec_insn d ?a s = Ret SECCOMP_RET_ALLOW"
    by (rule exec_ret)
  have r0: "run_from (f @ ?c # ?a # rest) d (length f + 0) s =
           shift (length f) (run_from (?c # ?a # rest) d 0 s)"
    by (rule run_from_shift)
  have r2: "run_from (f @ ?c # ?a # rest) d (length f + 2) s =
           shift (length f) (run_from (?c # ?a # rest) d 2 s)"
    by (rule run_from_shift)
  have r3: "run_from (?c # ?a # rest) d 2 s = shift 1 (run_from (?a # rest) d 1 s)"
    using run_from_Suc [of ?c "?a # rest" d 1 s] by (simp add: numeral_2_eq_2)
  have r4: "run_from (?c # ?a # rest) d 0 s =
            (if A s = n then Returned SECCOMP_RET_ALLOW else shift 1 (run_from (?a # rest) d 1 s))"
    by (simp add: run_from_Cons c a)
  have r: "run_from (AllowSyscall f n @ rest) d (length f) s =
       (if A s = n then Returned SECCOMP_RET_ALLOW
        else run_from (AllowSyscall f n @ rest) d (length f + 2) s)"
    using r0 r2 by (simp add: eq r3 r4)
  show ?thesis
    unfolding n0 n1 t f c a using eq r by simp
qed

theorem AllowSyscall_appends_pair_witness:
  "AllowSyscall [] 98 =
     [BPF_JUMP (BPF_JMP OR BPF_JEQ OR BPF_K) 98 0 1,
      BPF_STMT (BPF_RET OR BPF_K) SECCOMP_RET_ALLOW]
   \<and> exec_insn \<lparr>nr = 1, arch = AUDIT_ARCH_AARCH64, instruction_pointer = 0, args = (\<lambda>_. 0)\<rparr>
         (AllowSyscall [] 98 ! 0) (init_state\<lparr>A := 1\<rparr>) = Next 1 (init_state\<lparr>A := 1\<rparr>)"
  using AllowSyscall_appends_pair
          [of "[]" 98 "\<lparr>nr = 1, arch = AUDIT_ARCH_AARCH64, instruction_pointer = 0, args = (\<lambda>_. 0)\<rparr>"
              "init_state\<lparr>A := 1\<rparr>" "[]"]
  by auto

subsection \<open>C9: the duplicate allow entry\<close>

text \<open>Claim C9: the 64-bit section contains the allow entry for 128 twice (the ninth and the
  thirteenth entry). The program assembled without the second one is the assembled program
  with the two instructions of that entry (indices \<open>29 + length arm64_filter\<close> and
  \<open>30 + length arm64_filter\<close>) removed and the jump of the dispatcher shortened by two. It
  returns the same result on every input, as long as the 64-bit baseline fragment, on a
  64-bit input, does not jump past its own end into the allow entries.\<close>
theorem duplicate_entry_redundant:
  assumes "length arm64_filter \<le> 224"
  shows "\<exists>f g. assembled_program arm64_filter arm_filter = Some f
     \<and> assembled_with arm64_syscalls_once arm_syscalls arm64_filter arm_filter = Some g
     \<and> arm64_syscalls = take 12 arm64_syscalls_once @ [128] @ drop 12 arm64_syscalls_once
     \<and> arm64_syscalls_once ! 8 = 128
     \<and> f ! (29 + length arm64_filter) = BPF_JUMP (BPF_JMP OR BPF_JEQ OR BPF_K) 128 0 1
     \<and> f ! (30 + length arm64_filter) = BPF_STMT (BPF_RET OR BPF_K) SECCOMP_RET_ALLOW
     \<and> g = (take (29 + length arm64_filter) f @ drop (31 + length arm64_filter) f)
               [2 := BPF_JUMP (BPF_JMP OR BPF_JEQ OR BPF_K) AUDIT_ARCH_ARM
                       (of_nat (29 + length arm64_filter)) 0]
     \<and> length g + 2 = length f
     \<and> ((arch d = AUDIT_ARCH_AARCH64 \<longrightarrow> stays_inside arm64_filter d) \<longrightarrow>
          seccomp_run g d = seccomp_run f d)"
proof (intro exI conjI impI)
  let ?f = "layout arm64_syscalls arm_syscalls arm64_filter arm_filter"
  let ?g = "layout arm64_syscalls_once arm_syscalls arm64_filter arm_filter"
  note b = patch_bound [OF assms]
  have b': "3 + length arm64_filter + 2 * length arm64_syscalls_once \<le> 255"
    using assms by (simp add: arm64_syscalls_once_def)
  show "assembled_program arm64_filter arm_filter = Some ?f"
    using assms by (rule assembled_program_ok)
  show "assembled_with arm64_syscalls_once arm_syscalls arm64_filter arm_filter = Some ?g"
    using b' by (rule assembled_with_ok)
  show "arm64_syscalls = take 12 arm64_syscalls_once @ [128] @ drop 12 arm64_syscalls_once"
    by (simp add: arm64_syscalls_def arm64_syscalls_once_def)
  show "arm64_syscalls_once ! 8 = 128"
    by (simp add: arm64_syscalls_once_def)
  show "length ?g + 2 = length ?f"
    by (simp add: layout_def dispatcher_def length_section_code arm64_syscalls_def
        arm64_syscalls_once_def)
  show "?f ! (29 + length arm64_filter) = BPF_JUMP (BPF_JMP OR BPF_JEQ OR BPF_K) 128 0 1"
    by (rule layout_without_duplicate(2))
  show "?f ! (30 + length arm64_filter) = BPF_STMT (BPF_RET OR BPF_K) SECCOMP_RET_ALLOW"
    by (rule layout_without_duplicate(3))
  show "?g = (take (29 + length arm64_filter) ?f @ drop (31 + length arm64_filter) ?f)
               [2 := BPF_JUMP (BPF_JMP OR BPF_JEQ OR BPF_K) AUDIT_ARCH_ARM
                       (of_nat (29 + length arm64_filter)) 0]"
    by (rule layout_without_duplicate(1))
  have st: "set arm64_syscalls_once = set arm64_syscalls"
    by (simp add: arm64_syscalls_def arm64_syscalls_once_def) blast
  show "seccomp_run ?g d = seccomp_run ?f d"
    if h: "arch d = AUDIT_ARCH_AARCH64 \<longrightarrow> stays_inside arm64_filter d"
  proof (cases "arch d = AUDIT_ARCH_AARCH64")
    case False
    then show ?thesis by (simp add: run_layout [OF b] run_layout [OF b'])
  next
    case True
    with h have "stays_inside arm64_filter d" by simp
    then have "run_from (section_code arm64_syscalls_once arm64_filter @ post) d 0 (init_state\<lparr>A := a\<rparr>)
          = run_from (section_code arm64_syscalls arm64_filter @ post) d 0 (init_state\<lparr>A := a\<rparr>)"
      for post a
      by (simp add: run_section_baseline stays_inside_def st split: outcome.splits)
    with True show ?thesis by (simp add: run_layout [OF b] run_layout [OF b'])
  qed
qed

theorem duplicate_entry_redundant_witness:
  "\<exists>f g. assembled_program example_baseline [] = Some f
     \<and> assembled_with arm64_syscalls_once arm_syscalls example_baseline [] = Some g
     \<and> length g + 2 = length f
     \<and> falls_through example_baseline (example_call AUDIT_ARCH_AARCH64 267)
     \<and> seccomp_run f (example_call AUDIT_ARCH_AARCH64 267) = Some SECCOMP_RET_ALLOW
     \<and> seccomp_run g (example_call AUDIT_ARCH_AARCH64 267) = Some SECCOMP_RET_ALLOW
     \<and> falls_through example_baseline (example_call AUDIT_ARCH_AARCH64 999)
     \<and> seccomp_run f (example_call AUDIT_ARCH_AARCH64 999) = Some SECCOMP_RET_TRAP
     \<and> seccomp_run g (example_call AUDIT_ARCH_AARCH64 999) = Some SECCOMP_RET_TRAP"
proof -
  let ?d = "example_call AUDIT_ARCH_AARCH64 267"
  let ?e = "example_call AUDIT_ARCH_AARCH64 999"
  have l: "length example_baseline \<le> 224" by (simp add: example_simps)
  have sd: "stays_inside example_baseline ?d" and se: "stays_inside example_baseline ?e"
    by (simp_all add: stays_inside_def run_example_baseline example_simps)
  have fd: "falls_through example_baseline ?d" and fe: "falls_through example_baseline ?e"
    by (simp_all add: falls_through_def run_example_baseline example_simps)
  have rd: "seccomp_run (layout arm64_syscalls arm_syscalls example_baseline []) ?d =
              Some SECCOMP_RET_ALLOW"
    using run_layout_arm64 [OF patch_bound [OF l] example_simps(3) fd, of arm_syscalls "[]"]
    by (simp add: example_simps arm64_syscalls_def)
  have re: "seccomp_run (layout arm64_syscalls arm_syscalls example_baseline []) ?e =
              Some SECCOMP_RET_TRAP"
    using run_layout_arm64 [OF patch_bound [OF l] example_simps(3) fe, of arm_syscalls "[]"]
    by (simp add: example_simps arm64_syscalls_def)
  show ?thesis
    using duplicate_entry_redundant [OF l, of "[]" ?d]
          duplicate_entry_redundant [OF l, of "[]" ?e]
          sd se fd fe rd re assembled_program_ok [OF l, of "[]"]
    by auto
qed

subsection \<open>C10: the length field of the installed program\<close>

text \<open>Claim C10: \<open>install_filter\<close> makes one call of the kernel, with the vector and a length
  field of 16 bits: the length handed over is the number of instructions modulo \<open>2 ^ 16\<close>, and
  it is the number of instructions exactly when there are at most 65535 of them.\<close>
theorem install_filter_len_u16:
  "\<exists>prog. snd (install_filter prctl f) = [prog] \<and> insns prog = f
     \<and> unat (len prog) = length f mod 2 ^ 16
     \<and> ((unat (len prog) = length f) = (length f \<le> 65535))"
proof -
  have m: "(length f mod 65536 = length f) = (length f \<le> 65535)"
  proof (cases "length f < 65536")
    case True then show ?thesis by simp
  next
    case False
    have "length f mod 65536 < 65536" by simp
    with False show ?thesis by linarith
  qed
  show ?thesis
    by (simp add: install_filter_def Let_def unat_of_nat m)
qed

theorem install_filter_len_u16_witness:
  "\<exists>prog. snd (install_filter (\<lambda>_. 0) (replicate 65537 (BPF_STMT (BPF_RET OR BPF_K) SECCOMP_RET_ALLOW))) = [prog]
     \<and> unat (len prog) = 1"
  using install_filter_len_u16 [of "\<lambda>_. 0" "replicate 65537 (BPF_STMT (BPF_RET OR BPF_K) SECCOMP_RET_ALLOW)"]
  by auto

end
